theory Spec2Isabelle
  imports Main "HOL-Library.Word" "HOL-Library.Multiset" "HOL-Library.Sublist"
begin


section \<open>Common types\<close>

text \<open>
  Go's \<^verbatim>\<open>error\<close> values as the source builds them: \<^verbatim>\<open>fmt.Errorf\<close> with a plain message is
  \<open>Errorf\<close>, \<^verbatim>\<open>fmt.Errorf("prefix: %w", err)\<close> is \<open>Wrap\<close> of the text in front of the
  verb and the wrapped cause. A nil error is \<open>None\<close> of \<open>error option\<close>.
\<close>

datatype error = Errorf string | Wrap string error

text \<open>The \<^verbatim>\<open>Error()\<close> text of an error value.\<close>

primrec Error :: "error \<Rightarrow> string" where
  "Error (Errorf s) = s"
| "Error (Wrap p e) = p @ Error e"

text \<open>
  \<^verbatim>\<open>time.Time\<close> is a count of nanoseconds since January 1 of year 1, UTC, the zero
  \<^verbatim>\<open>Time\<close>; \<^verbatim>\<open>IsZero\<close> holds of 0 only. \<^verbatim>\<open>time.Duration\<close> is an \<^verbatim>\<open>int64\<close> of nanoseconds.
  \<^verbatim>\<open>time.Now()\<close> is read from the operating system's clock, given to every operation
  that reads it as the nanoseconds elapsed since the Unix epoch.
\<close>

type_synonym Time = int
type_synonym Duration = "64 word"

definition unixEpoch :: Time where
  "unixEpoch = 62135596800 * 1000000000"

definition time_Now :: "nat \<Rightarrow> Time" where
  "time_Now clock = unixEpoch + int clock"

definition IsZero :: "Time \<Rightarrow> bool" where
  "IsZero t = (t = 0)"

definition Add :: "Time \<Rightarrow> Duration \<Rightarrow> Time" where
  "Add t d = t + sint d"

definition Before :: "Time \<Rightarrow> Time \<Rightarrow> bool" where
  "Before t u = (t < u)"

definition After :: "Time \<Rightarrow> Time \<Rightarrow> bool" where
  "After t u = (t > u)"


section \<open>Bounded TTL cache (cache/types.go)\<close>

type_synonym CacheKey = string

record 'v CacheEntry =
  Value :: 'v
  Expiration :: Time

record Config =
  MaxSize :: int
  TTL :: Duration
  CleanupPeriod :: Duration

record CacheStats =
  Size :: int
  Hits :: "64 word"
  Misses :: "64 word"
  Evicted :: "64 word"

text \<open>
  The struct \<^verbatim>\<open>Cache\<close>. The mutex serialises the operations, so each operation is one
  atomic step on the entry table; \<open>cancelled\<close> is the state of the context that
  \<^verbatim>\<open>Close\<close> cancels.
\<close>

record 'v Cache =
  items :: "CacheKey \<rightharpoonup> 'v CacheEntry"
  maxSize :: int
  ttl :: Duration
  cancelled :: bool

text \<open>
  The package-level variables \<^verbatim>\<open>hits\<close>, \<^verbatim>\<open>misses\<close> and \<^verbatim>\<open>evicted\<close> (types.go, lines
  98 to 102): one set of \<^verbatim>\<open>int64\<close> counters for the whole process, updated with
  \<^verbatim>\<open>atomic.AddInt64\<close>. Every operation takes them together with the cache it works on.
\<close>

record Counters =
  hits :: "64 word"
  misses :: "64 word"
  evicted :: "64 word"

text \<open>
  \<^verbatim>\<open>New\<close>. It also starts the goroutine \<^verbatim>\<open>cleanup\<close>, whose ticks are steps of their own
  (\<open>cleanup_tick\<close> below). With a \<^verbatim>\<open>CleanupPeriod\<close> that is not positive \<^verbatim>\<open>time.NewTicker\<close>
  panics in that goroutine and ends the process: the model then describes the calls
  made until then.
\<close>

definition New :: "Config \<Rightarrow> 'v Cache" where
  "New config = \<lparr>items = Map.empty, maxSize = MaxSize config, ttl = TTL config,
     cancelled = False\<rparr>"

text \<open>\<^verbatim>\<open>len(c.items)\<close>\<close>

definition len_items :: "'v Cache \<Rightarrow> int" where
  "len_items c = int (card (dom (items c)))"

text \<open>
  One iteration of the loop of \<^verbatim>\<open>evictOldest\<close> over \<^verbatim>\<open>c.items\<close>, on the pair
  \<^verbatim>\<open>(oldestKey, oldestTime)\<close>.
\<close>

definition evict_step ::
  "(CacheKey \<rightharpoonup> 'v CacheEntry) \<Rightarrow> CacheKey \<times> Time \<Rightarrow> CacheKey \<Rightarrow> CacheKey \<times> Time" where
  "evict_step m acc key =
     (case m key of
        None \<Rightarrow> acc
      | Some entry \<Rightarrow>
          if IsZero (snd acc) \<or> Before (Expiration entry) (snd acc)
          then (key, Expiration entry) else acc)"

text \<open>
  \<^verbatim>\<open>evictOldest\<close>. Go ranges over a map in an unspecified order: \<open>order\<close> is the
  order in which this run of the loop meets the keys, an enumeration of the keys of
  \<^verbatim>\<open>c.items\<close> (\<open>range_order\<close>).
\<close>

definition range_order :: "CacheKey list \<Rightarrow> 'v Cache \<Rightarrow> bool" where
  "range_order order c = (distinct order \<and> set order = dom (items c))"

definition evictOldest :: "CacheKey list \<Rightarrow> Counters \<times> 'v Cache \<Rightarrow> Counters \<times> 'v Cache" where
  "evictOldest order gc =
     (let g = fst gc; c = snd gc;
          oldest = foldl (evict_step (items c)) ([], 0) order
      in if \<not> IsZero (snd oldest)
         then (g\<lparr>evicted := evicted g + 1\<rparr>, c\<lparr>items := (items c)(fst oldest := None)\<rparr>)
         else (g, c))"

definition Set ::
  "CacheKey list \<Rightarrow> nat \<Rightarrow> CacheKey \<Rightarrow> 'v \<Rightarrow> Counters \<times> 'v Cache \<Rightarrow> Counters \<times> 'v Cache" where
  "Set order clock key val gc =
     (let gc1 = (if len_items (snd gc) \<ge> maxSize (snd gc) then evictOldest order gc else gc);
          g = fst gc1; c = snd gc1
      in (g, c\<lparr>items := (items c)(key \<mapsto>
            \<lparr>Value = val, Expiration = Add (time_Now clock) (ttl c)\<rparr>)\<rparr>))"

definition Get ::
  "nat \<Rightarrow> CacheKey \<Rightarrow> Counters \<times> 'v Cache \<Rightarrow> 'v option \<times> Counters \<times> 'v Cache" where
  "Get clock key gc =
     (let g = fst gc; c = snd gc in
      case items c key of
        None \<Rightarrow> (None, g\<lparr>misses := misses g + 1\<rparr>, c)
      | Some entry \<Rightarrow>
          if After (time_Now clock) (Expiration entry)
          then (None, g\<lparr>misses := misses g + 1\<rparr>, c)
          else (Some (Value entry), g\<lparr>hits := hits g + 1\<rparr>, c))"

definition Delete :: "CacheKey \<Rightarrow> Counters \<times> 'v Cache \<Rightarrow> Counters \<times> 'v Cache" where
  "Delete key gc = (fst gc, (snd gc)\<lparr>items := (items (snd gc))(key := None)\<rparr>)"

definition Clear :: "Counters \<times> 'v Cache \<Rightarrow> Counters \<times> 'v Cache" where
  "Clear gc = (fst gc, (snd gc)\<lparr>items := Map.empty\<rparr>)"

definition GetStats :: "Counters \<times> 'v Cache \<Rightarrow> CacheStats" where
  "GetStats gc =
     \<lparr>Size = len_items (snd gc), Hits = hits (fst gc), Misses = misses (fst gc),
      Evicted = evicted (fst gc)\<rparr>"

text \<open>
  One tick of the ticker in \<^verbatim>\<open>cleanup\<close>: every entry whose expiration has passed is
  deleted and counted. The loop deletes while ranging, each key on its own, so the
  order of the range does not show in the result.
\<close>

definition expired_keys :: "Time \<Rightarrow> 'v Cache \<Rightarrow> CacheKey set" where
  "expired_keys now c =
     {k. case items c k of None \<Rightarrow> False | Some entry \<Rightarrow> After now (Expiration entry)}"

definition cleanup_tick :: "nat \<Rightarrow> Counters \<times> 'v Cache \<Rightarrow> Counters \<times> 'v Cache" where
  "cleanup_tick clock gc =
     (let g = fst gc; c = snd gc; now = time_Now clock in
      (g\<lparr>evicted := evicted g + of_nat (card (expired_keys now c))\<rparr>,
       c\<lparr>items := (\<lambda>k. if k \<in> expired_keys now c then None else items c k)\<rparr>))"

definition Close :: "Counters \<times> 'v Cache \<Rightarrow> Counters \<times> 'v Cache" where
  "Close gc = (fst gc, (snd gc)\<lparr>cancelled := True\<rparr>)"

text \<open>
  A client of one cache: the calls it makes, and the ticks of the cleanup goroutine
  that fall between them. After \<^verbatim>\<open>Close\<close> the goroutine has returned and a tick does
  nothing.
\<close>

datatype 'v cache_op =
    OpSet "CacheKey list" nat CacheKey 'v
  | OpGet nat CacheKey
  | OpDelete CacheKey
  | OpClear
  | OpTick nat
  | OpClose

fun apply_op :: "Counters \<times> 'v Cache \<Rightarrow> 'v cache_op \<Rightarrow> Counters \<times> 'v Cache" where
  "apply_op gc (OpSet order clock key val) = Set order clock key val gc"
| "apply_op gc (OpGet clock key) = snd (Get clock key gc)"
| "apply_op gc (OpDelete key) = Delete key gc"
| "apply_op gc OpClear = Clear gc"
| "apply_op gc (OpTick clock) = (if cancelled (snd gc) then gc else cleanup_tick clock gc)"
| "apply_op gc OpClose = Close gc"

fun run_ops :: "Counters \<times> 'v Cache \<Rightarrow> 'v cache_op list \<Rightarrow> Counters \<times> 'v Cache" where
  "run_ops gc [] = gc"
| "run_ops gc (op # ops) = run_ops (apply_op gc op) ops"

text \<open>Every \<^verbatim>\<open>Set\<close> of the run ranges over the keys the map holds at that moment.\<close>

fun ranges_ok :: "Counters \<times> 'v Cache \<Rightarrow> 'v cache_op list \<Rightarrow> bool" where
  "ranges_ok gc [] = True"
| "ranges_ok gc (OpSet order clock key val # ops) =
     (range_order order (snd gc) \<and> ranges_ok (Set order clock key val gc) ops)"
| "ranges_ok gc (op # ops) = ranges_ok (apply_op gc op) ops"


section \<open>Persistent entities (db/types.go)\<close>

type_synonym ID = string

record Actor =
  ID :: ID
  Name :: string
  Assistant :: bool
  CreatedAt :: Time
  UpdatedAt :: Time
  DeletedAt :: "Time option"

record Session =
  ID :: ID
  CreatedAt :: Time
  UpdatedAt :: Time
  DeletedAt :: "Time option"

text \<open>
  \<^verbatim>\<open>Fragment\<close>. \<open>'v\<close> stands for the values of \<^verbatim>\<open>interface{}\<close>; a nil map and a nil
  pointer are \<open>None\<close>; the embedding is the list of its \<^verbatim>\<open>float32\<close> bit patterns, which
  the engine only copies.
\<close>

record 'v Fragment =
  ID :: ID
  ActorID :: ID
  SessionID :: ID
  Content :: string
  Metadata :: "(string \<rightharpoonup> 'v) option"
  Embedding :: "32 word list"
  Actor :: "Actor option"
  Session :: "Session option"
  CreatedAt :: Time
  UpdatedAt :: Time
  DeletedAt :: "Time option"


section \<open>Shared state (state/state.go and the declarations of the state package)\<close>

type_synonym StateDataKey = string

record 'v StateData =
  Key :: StateDataKey
  Value :: 'v

text \<open>\<^verbatim>\<open>State\<close>; \<open>'t\<close> stands for \<^verbatim>\<open>toolkit.Tool\<close>. A nil map is \<open>None\<close>.\<close>

record ('v, 't) State =
  Input :: "'v Fragment option"
  Output :: "'v Fragment option"
  Actor :: "Actor option"
  RecentInteractions :: "'v Fragment list"
  RelevantInteractions :: "'v Fragment list"
  Tools :: "'t list"
  managerData :: "(StateDataKey \<rightharpoonup> 'v) option"
  customData :: "(string \<rightharpoonup> 'v) option"

definition NewState :: "('v, 't) State" where
  "NewState = \<lparr>Input = None, Output = None, Actor = None, RecentInteractions = [],
     RelevantInteractions = [], Tools = [], managerData = Some Map.empty,
     customData = Some Map.empty\<rparr>"

text \<open>Reading a map that may be nil: a nil map has no key.\<close>

definition map_index :: "('k \<rightharpoonup> 'a) option \<Rightarrow> 'k \<Rightarrow> 'a option" where
  "map_index m k = (case m of None \<Rightarrow> None | Some f \<Rightarrow> f k)"

definition AddManagerData :: "'v StateData list \<Rightarrow> ('v, 't) State \<Rightarrow> ('v, 't) State" where
  "AddManagerData data s =
     s\<lparr>managerData := Some (foldl (\<lambda>m d. m(Key d \<mapsto> StateData.Value d))
          (case managerData s of None \<Rightarrow> Map.empty | Some m \<Rightarrow> m) data)\<rparr>"

text \<open>The pair \<^verbatim>\<open>(value, exists)\<close> is an option: \<open>None\<close> when \<^verbatim>\<open>exists\<close> is false.\<close>

definition GetManagerData :: "('v, 't) State \<Rightarrow> StateDataKey \<Rightarrow> 'v option" where
  "GetManagerData s key = map_index (managerData s) key"

definition AddCustomData :: "string \<Rightarrow> 'v \<Rightarrow> ('v, 't) State \<Rightarrow> ('v, 't) State" where
  "AddCustomData key val s =
     s\<lparr>customData := Some ((case customData s of None \<Rightarrow> Map.empty | Some m \<Rightarrow> m)(key \<mapsto> val))\<rparr>"

definition GetCustomData :: "('v, 't) State \<Rightarrow> string \<Rightarrow> 'v option" where
  "GetCustomData s key = (case customData s of None \<Rightarrow> None | Some m \<Rightarrow> m key)"

definition Reset :: "('v, 't) State \<Rightarrow> ('v, 't) State" where
  "Reset s = s\<lparr>managerData := Some Map.empty, customData := Some Map.empty\<rparr>"


section \<open>Prompt builder (state/prompt.go)\<close>

type_synonym Role = string

definition RoleSystem :: Role where "RoleSystem = ''system''"
definition RoleUser :: Role where "RoleUser = ''user''"
definition RoleAssistant :: Role where "RoleAssistant = ''assistant''"

record ToolCall =
  Name :: string
  Arguments :: string

record Message =
  Role :: Role
  Content :: string
  Name :: string
  ToolCall :: "ToolCall option"

record PromptSection =
  Role :: Role
  Template :: string
  Name :: string

text \<open>
  \<^verbatim>\<open>PromptBuilder\<close>. The field \<^verbatim>\<open>state\<close> is a pointer: \<open>state\<close> is the \<^verbatim>\<open>State\<close> it
  points to, and a method that writes through the pointer returns the builder with
  that \<^verbatim>\<open>State\<close> updated. \<^verbatim>\<open>template.FuncMap\<close> is \<^verbatim>\<open>map[string]any\<close>.
\<close>

record ('v, 't) PromptBuilder =
  state :: "('v, 't) State"
  sections :: "PromptSection list"
  stateData :: "StateDataKey \<rightharpoonup> 'v"
  helpers :: "string \<rightharpoonup> 'v"
  err :: "error option"

definition NewPromptBuilder :: "('v, 't) State \<Rightarrow> ('v, 't) PromptBuilder" where
  "NewPromptBuilder s =
     \<lparr>state = s, sections = [], stateData = Map.empty, helpers = Map.empty, err = None\<rparr>"

definition WithHelper ::
  "string \<Rightarrow> 'v \<Rightarrow> ('v, 't) PromptBuilder \<Rightarrow> ('v, 't) PromptBuilder" where
  "WithHelper name fn tb =
     (if err tb \<noteq> None then tb else tb\<lparr>helpers := (helpers tb)(name \<mapsto> fn)\<rparr>)"

definition AddSectionWithName ::
  "Role \<Rightarrow> string \<Rightarrow> string \<Rightarrow> ('v, 't) PromptBuilder \<Rightarrow> ('v, 't) PromptBuilder" where
  "AddSectionWithName role templateText name tb =
     (if err tb \<noteq> None then tb
      else tb\<lparr>sections := sections tb @
        [\<lparr>PromptSection.Role = role, Template = templateText, PromptSection.Name = name\<rparr>]\<rparr>)"

definition AddSection ::
  "Role \<Rightarrow> string \<Rightarrow> ('v, 't) PromptBuilder \<Rightarrow> ('v, 't) PromptBuilder" where
  "AddSection role templateText tb = AddSectionWithName role templateText [] tb"

definition AddSystemSection :: "string \<Rightarrow> ('v, 't) PromptBuilder \<Rightarrow> ('v, 't) PromptBuilder" where
  "AddSystemSection templateText tb = AddSection RoleSystem templateText tb"

definition AddUserSection ::
  "string \<Rightarrow> string \<Rightarrow> ('v, 't) PromptBuilder \<Rightarrow> ('v, 't) PromptBuilder" where
  "AddUserSection templateText name tb = AddSectionWithName RoleUser templateText name tb"

definition AddAssistantSection ::
  "string \<Rightarrow> ('v, 't) PromptBuilder \<Rightarrow> ('v, 't) PromptBuilder" where
  "AddAssistantSection templateText tb = AddSection RoleAssistant templateText tb"

definition WithManagerData ::
  "StateDataKey \<Rightarrow> ('v, 't) PromptBuilder \<Rightarrow> ('v, 't) PromptBuilder" where
  "WithManagerData key tb =
     (if err tb \<noteq> None then tb
      else case GetManagerData (state tb) key of
             None \<Rightarrow> tb\<lparr>err := Some (Errorf (''manager data for key '' @ key @ '' not found''))\<rparr>
           | Some val \<Rightarrow> tb\<lparr>stateData := (stateData tb)(key \<mapsto> val)\<rparr>)"

fun WithManagerDataBatch ::
  "StateDataKey list \<Rightarrow> ('v, 't) PromptBuilder \<Rightarrow> ('v, 't) PromptBuilder" where
  "WithManagerDataBatch [] tb = tb"
| "WithManagerDataBatch (key # keys) tb =
     (let tb1 = WithManagerData key tb
      in if err tb1 \<noteq> None then tb1 else WithManagerDataBatch keys tb1)"

definition WithTools :: "'t list \<Rightarrow> ('v, 't) PromptBuilder \<Rightarrow> ('v, 't) PromptBuilder" where
  "WithTools tools tb = tb\<lparr>state := (state tb)\<lparr>Tools := Tools (state tb) @ tools\<rparr>\<rparr>"

text \<open>\<^verbatim>\<open>WithToolkit\<close>, with the toolkit given by what its \<^verbatim>\<open>GetTools\<close> returns.\<close>

definition WithToolkit :: "'t list \<Rightarrow> ('v, 't) PromptBuilder \<Rightarrow> ('v, 't) PromptBuilder" where
  "WithToolkit toolkit tb = tb\<lparr>state := (state tb)\<lparr>Tools := Tools (state tb) @ toolkit\<rparr>\<rparr>"

definition GetTools :: "('v, 't) PromptBuilder \<Rightarrow> 't list" where
  "GetTools tb = Tools (state tb)"

text \<open>
  What a template is executed against: \<^verbatim>\<open>Compose\<close> fills \<^verbatim>\<open>data\<close> with every exported
  field of \<^verbatim>\<open>State\<close> (found by reflection, each of its own type), then with the values
  collected by \<^verbatim>\<open>WithManagerData\<close>, then with the custom data; a later write to a key
  replaces an earlier one.
\<close>

datatype ('v, 't) field_value =
    FragmentPtr "'v Fragment option"
  | ActorPtr "Actor option"
  | FragmentSlice "'v Fragment list"
  | ToolSlice "'t list"
  | Dynamic 'v

definition template_data :: "('v, 't) PromptBuilder \<Rightarrow> (string \<rightharpoonup> ('v, 't) field_value)" where
  "template_data tb =
     (let s = state tb;
          fields = [''Input'' \<mapsto> FragmentPtr (Input s), ''Output'' \<mapsto> FragmentPtr (Output s),
            ''Actor'' \<mapsto> ActorPtr (State.Actor s),
            ''RecentInteractions'' \<mapsto> FragmentSlice (RecentInteractions s),
            ''RelevantInteractions'' \<mapsto> FragmentSlice (RelevantInteractions s),
            ''Tools'' \<mapsto> ToolSlice (Tools s)]
      in (fields ++ (\<lambda>k. map_option Dynamic (stateData tb k)))
           ++ (\<lambda>k. map_option Dynamic (map_index (customData s) k)))"

text \<open>
  The package \<^verbatim>\<open>html/template\<close> of Go's standard library, as far as \<^verbatim>\<open>Compose\<close> uses it:
  \<open>Parse\<close> is \<^verbatim>\<open>template.New("section").Funcs(helpers).Parse(text)\<close> and \<open>Execute\<close> is
  \<^verbatim>\<open>tmpl.Execute(&buf, data)\<close> followed by \<^verbatim>\<open>buf.String()\<close>. Both are parameters of the
  model, for the calls that return (\<^verbatim>\<open>Funcs\<close> panics on a helper that is not a
  function); \<open>'tm\<close> is the type of parsed templates.
\<close>

record ('v, 't, 'tm) TemplateLib =
  Parse :: "(string \<rightharpoonup> 'v) \<Rightarrow> string \<Rightarrow> error + 'tm"
  Execute :: "'tm \<Rightarrow> (string \<rightharpoonup> ('v, 't) field_value) \<Rightarrow> error + string"

text \<open>The body of the loop of \<^verbatim>\<open>Compose\<close> for one section.\<close>

definition render_section ::
  "('v, 't, 'tm) TemplateLib \<Rightarrow> ('v, 't) PromptBuilder \<Rightarrow> PromptSection \<Rightarrow> error + Message" where
  "render_section lib tb section =
     (case Parse lib (helpers tb) (Template section) of
        Inl e \<Rightarrow> Inl (Wrap ''failed to parse template section: '' e)
      | Inr tmpl \<Rightarrow>
          (case Execute lib tmpl (template_data tb) of
             Inl e \<Rightarrow> Inl (Wrap (''failed to execute template section (role=''
                        @ PromptSection.Role section @ ''): '') e)
           | Inr text \<Rightarrow> Inr \<lparr>Message.Role = PromptSection.Role section, Content = text,
                 Message.Name = PromptSection.Name section, ToolCall = None\<rparr>))"

fun compose_sections ::
  "('v, 't, 'tm) TemplateLib \<Rightarrow> ('v, 't) PromptBuilder \<Rightarrow> PromptSection list \<Rightarrow> Message list
     \<Rightarrow> error + Message list" where
  "compose_sections lib tb [] messages = Inr messages"
| "compose_sections lib tb (section # rest) messages =
     (case render_section lib tb section of
        Inl e \<Rightarrow> Inl e
      | Inr message \<Rightarrow> compose_sections lib tb rest (messages @ [message]))"

text \<open>\<^verbatim>\<open>Compose\<close>: \<open>Inl\<close> is the return of \<^verbatim>\<open>nil\<close> messages and an error.\<close>

definition Compose ::
  "('v, 't, 'tm) TemplateLib \<Rightarrow> ('v, 't) PromptBuilder \<Rightarrow> error + Message list" where
  "Compose lib tb =
     (case err tb of
        Some e \<Rightarrow> Inl e
      | None \<Rightarrow> compose_sections lib tb (sections tb) [])"


section \<open>Manager registry and execution pipeline (engine/engine.go, engine/options.go)\<close>

type_synonym ManagerID = string

text \<open>
  The interface \<^verbatim>\<open>manager.Manager\<close> (its declaration is not among the sources; the
  README lists its methods), as far as the engine calls it. A callback receives the
  pointer to the shared \<^verbatim>\<open>State\<close> and returns an error: here it returns the error and
  the \<^verbatim>\<open>State\<close> as it leaves it. A callback that panics, as the defaults of
  \<^verbatim>\<open>BaseManager\<close> do, ends the process; the record holds the callbacks that return.

  While \<^verbatim>\<open>Process\<close> runs, \<^verbatim>\<open>State.Input\<close> holds the pointer \<^verbatim>\<open>inputCopy\<close> that
  \<^verbatim>\<open>Engine.Process\<close> hands to \<^verbatim>\<open>Upsert\<close> afterwards, so what a manager writes through
  \<^verbatim>\<open>State.Input\<close> is written to the fragment the engine stores. \<open>Process\<close> therefore
  takes, and returns as it leaves them, two things: the fragment that the engine's
  pointer \<^verbatim>\<open>inputCopy\<close> refers to, and the \<^verbatim>\<open>State\<close>, whose field \<open>Input\<close> is the fragment
  that \<^verbatim>\<open>State.Input\<close> refers to at that moment. The two are the same fragment until a
  manager assigns the field; a write through \<^verbatim>\<open>State.Input\<close> before that changes both.
\<close>

record ('v, 't) Manager =
  GetID :: ManagerID
  GetDependencies :: "ManagerID list"
  Process ::
    "'v Fragment \<Rightarrow> ('v, 't) State \<Rightarrow> error option \<times> 'v Fragment \<times> ('v, 't) State"
  PostProcess :: "('v, 't) State \<Rightarrow> error option \<times> ('v, 't) State"

text \<open>
  Modelled from the spec: the fragment store of the \<^verbatim>\<open>stores\<close> package, which is not
  among the sources (\<^verbatim>\<open>Upsert(entity) -> error\<close>). \<open>Upsert_result\<close> is what the database
  answers to the write of a fragment; \<open>upserted\<close> lists the fragments whose \<^verbatim>\<open>Upsert\<close>
  returned nil, oldest first.
\<close>

record 'v FragmentStore =
  Upsert_result :: "'v Fragment \<Rightarrow> error option"
  upserted :: "'v Fragment list"

definition Upsert :: "'v Fragment \<Rightarrow> 'v FragmentStore \<Rightarrow> error option \<times> 'v FragmentStore" where
  "Upsert fragment store =
     (case Upsert_result store fragment of
        Some e \<Rightarrow> (Some e, store)
      | None \<Rightarrow> (None, store\<lparr>upserted := upserted store @ [fragment]\<rparr>))"

text \<open>
  The struct \<^verbatim>\<open>Engine\<close> (declared outside the sources), with the fields the pipeline
  reads. The actor and session stores are given by their \<^verbatim>\<open>GetByID\<close>: an error, or the
  entity found (\<open>None\<close> for a nil pointer).
\<close>

record ('v, 't) Engine =
  ID :: ID
  Name :: string
  actorStore :: "ID \<Rightarrow> error + Actor option"
  sessionStore :: "ID \<Rightarrow> error + Session option"
  interactionFragmentStore :: "'v FragmentStore"
  managers :: "('v, 't) Manager list"
  managerOrder :: "ManagerID list"

text \<open>A call either returns or panics (a nil pointer is dereferenced).\<close>

datatype 'a outcome = Panic | Returns 'a

definition createFragmentCopy ::
  "'v Fragment \<Rightarrow> Actor option \<Rightarrow> Session option \<Rightarrow> 'v Fragment" where
  "createFragmentCopy fragment actor session =
     \<lparr>Fragment.ID = Fragment.ID fragment,
      ActorID = ActorID fragment,
      SessionID = SessionID fragment,
      Fragment.Content = Fragment.Content fragment,
      Metadata = Metadata fragment,
      Embedding = Embedding fragment,
      Fragment.Actor = actor,
      Fragment.Session = session,
      Fragment.CreatedAt = Fragment.CreatedAt fragment,
      Fragment.UpdatedAt = Fragment.UpdatedAt fragment,
      Fragment.DeletedAt = Fragment.DeletedAt fragment\<rparr>"

text \<open>
  The goroutines of \<^verbatim>\<open>Process\<close>: every manager of \<open>schedule\<close> runs to its end on the
  shared \<^verbatim>\<open>State\<close> and on the fragment \<open>copy\<close> that \<^verbatim>\<open>inputCopy\<close> points to, one after
  the other in the order in which the scheduler lets them finish; \<open>schedule\<close> is a
  permutation of \<^verbatim>\<open>e.managers\<close>. The result lists what each returned, in that order,
  and gives the fragment and the \<^verbatim>\<open>State\<close> as the last one leaves them.
\<close>

fun run_goroutines ::
  "('v, 't) Manager list \<Rightarrow> 'v Fragment \<Rightarrow> ('v, 't) State
     \<Rightarrow> error option list \<times> 'v Fragment \<times> ('v, 't) State" where
  "run_goroutines [] copy st = ([], copy, st)"
| "run_goroutines (m # ms) copy st =
     (case Process m copy st of
        (r, copy1, st1) \<Rightarrow>
          (case run_goroutines ms copy1 st1 of (rs, copy2, st2) \<Rightarrow> (r # rs, copy2, st2)))"

text \<open>\<^verbatim>\<open>errgroup.Group.Wait\<close>: the first non-nil error returned, once all have finished.\<close>

fun errgroup_Wait :: "error option list \<Rightarrow> error option" where
  "errgroup_Wait [] = None"
| "errgroup_Wait (None # rs) = errgroup_Wait rs"
| "errgroup_Wait (Some e # rs) = Some e"

text \<open>
  \<^verbatim>\<open>Engine.Process\<close>. The call of the logger has no part in the result and is left
  out. \<^verbatim>\<open>Upsert\<close> receives the pointer \<^verbatim>\<open>inputCopy\<close> when the managers have finished:
  the fragment it stores is the copy as their writes have left it.
\<close>

definition Engine_Process ::
  "('v, 't) Manager list \<Rightarrow> ('v, 't) Engine \<Rightarrow> ('v, 't) State
     \<Rightarrow> (error option \<times> ('v, 't) Engine \<times> ('v, 't) State) outcome" where
  "Engine_Process schedule e currentState =
     (case Input currentState of
        None \<Rightarrow> Panic
      | Some input \<Rightarrow> Returns
          (case actorStore e (ActorID input) of
             Inl failure \<Rightarrow> (Some (Wrap ''failed to get actor: '' failure), e, currentState)
           | Inr actor \<Rightarrow>
          (case sessionStore e (SessionID input) of
             Inl failure \<Rightarrow> (Some (Wrap ''failed to get session: '' failure), e, currentState)
           | Inr session \<Rightarrow>
          (let inputCopy = createFragmentCopy input actor session in
           case run_goroutines schedule inputCopy (currentState\<lparr>Input := Some inputCopy\<rparr>) of
             (results, stored, st) \<Rightarrow>
          (case errgroup_Wait results of
             Some failure \<Rightarrow> (Some (Wrap ''failed to execute manager analysis: '' failure), e, st)
           | None \<Rightarrow>
          (case Upsert stored (interactionFragmentStore e) of
             (Some failure, store) \<Rightarrow>
               (Some (Wrap ''failed to store input: '' failure),
                e\<lparr>interactionFragmentStore := store\<rparr>, st)
           | (None, store) \<Rightarrow> (None, e\<lparr>interactionFragmentStore := store\<rparr>, st)))))))"

text \<open>\<^verbatim>\<open>managerMap\<close> of \<^verbatim>\<open>executeManagersInOrder\<close>: a later manager replaces an earlier one
  of the same identifier.\<close>

definition managerMap :: "('v, 't) Manager list \<Rightarrow> (ManagerID \<rightharpoonup> ('v, 't) Manager)" where
  "managerMap ms = foldl (\<lambda>mp m. mp(GetID m \<mapsto> m)) Map.empty ms"

definition executionOrder :: "('v, 't) Engine \<Rightarrow> ManagerID list" where
  "executionOrder e =
     (if length (managerOrder e) = 0 then map GetID (managers e) else managerOrder e)"

text \<open>
  The last loop of \<^verbatim>\<open>executeManagersInOrder\<close>. Beside the error and the \<^verbatim>\<open>State\<close> it
  returns the calls of \<^verbatim>\<open>executeFn\<close> it made, in order, each with the identifier it
  was made for and what it returned: what a test's call counters observe.
\<close>

fun execute_each ::
  "(ManagerID \<rightharpoonup> ('v, 't) Manager)
     \<Rightarrow> (('v, 't) Manager \<Rightarrow> ('v, 't) State \<Rightarrow> error option \<times> ('v, 't) State)
     \<Rightarrow> ManagerID list \<Rightarrow> ('v, 't) State
     \<Rightarrow> error option \<times> ('v, 't) State \<times> (ManagerID \<times> error option) list" where
  "execute_each mp executeFn [] st = (None, st, [])"
| "execute_each mp executeFn (managerID # rest) st =
     (case mp managerID of
        None \<Rightarrow> execute_each mp executeFn rest st
      | Some manager \<Rightarrow>
          (case executeFn manager st of
             (Some failure, st1) \<Rightarrow>
               (Some (Wrap (''manager '' @ managerID @ '' failed: '') failure), st1,
                [(managerID, Some failure)])
           | (None, st1) \<Rightarrow>
               (case execute_each mp executeFn rest st1 of
                  (r, st2, calls) \<Rightarrow> (r, st2, (managerID, None) # calls))))"

definition executeManagersInOrder ::
  "('v, 't) Engine
     \<Rightarrow> (('v, 't) Manager \<Rightarrow> ('v, 't) State \<Rightarrow> error option \<times> ('v, 't) State)
     \<Rightarrow> ('v, 't) State
     \<Rightarrow> error option \<times> ('v, 't) State \<times> (ManagerID \<times> error option) list" where
  "executeManagersInOrder e executeFn currentState =
     execute_each (managerMap (managers e)) executeFn (executionOrder e) currentState"

text \<open>
  \<^verbatim>\<open>Engine.PostProcess\<close>. The \<^verbatim>\<open>State\<close> receives the enriched copy as \<^verbatim>\<open>Output\<close>; the
  fragment handed to \<^verbatim>\<open>Upsert\<close> is \<^verbatim>\<open>response\<close> itself.
\<close>

definition Engine_PostProcess ::
  "('v, 't) Engine \<Rightarrow> 'v Fragment option \<Rightarrow> ('v, 't) State
     \<Rightarrow> (error option \<times> ('v, 't) Engine \<times> ('v, 't) State
          \<times> (ManagerID \<times> error option) list) outcome" where
  "Engine_PostProcess e response currentState =
     (case response of
        None \<Rightarrow> Panic
      | Some resp \<Rightarrow> Returns
          (case actorStore e (ActorID resp) of
             Inl failure \<Rightarrow> (Some (Wrap ''failed to get actor: '' failure), e, currentState, [])
           | Inr actor \<Rightarrow>
          (case sessionStore e (SessionID resp) of
             Inl failure \<Rightarrow> (Some (Wrap ''failed to get session: '' failure), e, currentState, [])
           | Inr session \<Rightarrow>
          (let responseCopy = createFragmentCopy resp actor session in
           case executeManagersInOrder e PostProcess
                  (currentState\<lparr>Output := Some responseCopy\<rparr>) of
             (Some failure, st, calls) \<Rightarrow>
               (Some (Wrap ''failed to execute manager actions: '' failure), e, st, calls)
           | (None, st, calls) \<Rightarrow>
          (case Upsert resp (interactionFragmentStore e) of
             (Some failure, store) \<Rightarrow>
               (Some (Wrap ''failed to store response: '' failure),
                e\<lparr>interactionFragmentStore := store\<rparr>, st, calls)
           | (None, store) \<Rightarrow>
               (None, e\<lparr>interactionFragmentStore := store\<rparr>, st, calls))))))"

text \<open>The first loop of \<^verbatim>\<open>WithManagers\<close>, on the map \<^verbatim>\<open>available\<close>.\<close>

fun collect_available ::
  "('v, 't) Manager list \<Rightarrow> (ManagerID \<rightharpoonup> ('v, 't) Manager)
     \<Rightarrow> error + (ManagerID \<rightharpoonup> ('v, 't) Manager)" where
  "collect_available [] available = Inr available"
| "collect_available (m # ms) available =
     (case available (GetID m) of
        Some other \<Rightarrow> Inl (Errorf (''duplicate manager with ID '' @ GetID m))
      | None \<Rightarrow> collect_available ms (available(GetID m \<mapsto> m)))"

text \<open>The loop over the dependencies of one manager, in \<^verbatim>\<open>WithManagers\<close> and in
  \<^verbatim>\<open>AddManager\<close>.\<close>

fun check_dependencies :: "ManagerID \<Rightarrow> ManagerID list \<Rightarrow> (ManagerID \<Rightarrow> bool) \<Rightarrow> error option" where
  "check_dependencies managerID [] available = None"
| "check_dependencies managerID (dep # deps) available =
     (if \<not> available dep
      then Some (Errorf (''manager '' @ managerID @ '' requires manager '' @ dep
             @ '' which was not provided''))
      else check_dependencies managerID deps available)"

fun check_managers :: "('v, 't) Manager list \<Rightarrow> (ManagerID \<Rightarrow> bool) \<Rightarrow> error option" where
  "check_managers [] available = None"
| "check_managers (m # ms) available =
     (case check_dependencies (GetID m) (GetDependencies m) available of
        Some failure \<Rightarrow> Some failure
      | None \<Rightarrow> check_managers ms available)"

text \<open>An option \<^verbatim>\<open>func(*Engine) error\<close> returns the error, or the engine as it leaves it.\<close>

definition WithManagers ::
  "('v, 't) Manager list \<Rightarrow> ('v, 't) Engine \<Rightarrow> error + ('v, 't) Engine" where
  "WithManagers managers' e =
     (case collect_available managers' Map.empty of
        Inl failure \<Rightarrow> Inl failure
      | Inr available \<Rightarrow>
          (case check_managers managers' (\<lambda>dep. available dep \<noteq> None) of
             Some failure \<Rightarrow> Inl failure
           | None \<Rightarrow> Inr (e\<lparr>managers := managers'\<rparr>)))"

fun check_order :: "ManagerID list \<Rightarrow> (ManagerID \<Rightarrow> bool) \<Rightarrow> error option" where
  "check_order [] registered = None"
| "check_order (i # order) registered =
     (if \<not> registered i
      then Some (Errorf (''manager '' @ i @ '' specified in order but not provided''))
      else check_order order registered)"

definition WithManagerOrder ::
  "ManagerID list \<Rightarrow> ('v, 't) Engine \<Rightarrow> error + ('v, 't) Engine" where
  "WithManagerOrder order e =
     (case check_order order (\<lambda>i. i \<in> set (map GetID (managers e))) of
        Some failure \<Rightarrow> Inl failure
      | None \<Rightarrow> Inr (e\<lparr>managerOrder := order\<rparr>))"

definition AddManager ::
  "('v, 't) Manager \<Rightarrow> ('v, 't) Engine \<Rightarrow> error option \<times> ('v, 't) Engine" where
  "AddManager newManager e =
     (if list_ex (\<lambda>m. GetID m = GetID newManager) (managers e)
      then (Some (Errorf (''duplicate manager with ID '' @ GetID newManager)), e)
      else case check_dependencies (GetID newManager) (GetDependencies newManager)
                  (\<lambda>dep. dep \<in> set (map GetID (managers e))) of
             Some failure \<Rightarrow> (Some failure, e)
           | None \<Rightarrow> (None, e\<lparr>managers := managers e @ [newManager]\<rparr>))"


section \<open>Invariants used in the proofs\<close>

text \<open>
  The entry table of a cache is finite and no entry expires at the zero \<^verbatim>\<open>Time\<close>, the
  value \<^verbatim>\<open>evictOldest\<close> takes for "nothing found yet".
\<close>

definition wf_items :: "(CacheKey \<rightharpoonup> 'v CacheEntry) \<Rightarrow> bool" where
  "wf_items m = (finite (dom m) \<and> (\<forall>k e. m k = Some e \<longrightarrow> Expiration e \<noteq> 0))"

text \<open>
  The invariant of the loop of \<^verbatim>\<open>evictOldest\<close>: after the keys \<open>seen\<close>, the pair
  \<^verbatim>\<open>(oldestKey, oldestTime)\<close> is unset when nothing was seen, and otherwise a key seen
  and its expiration, no later than that of any key seen.
\<close>

definition oldest_of :: "(CacheKey \<rightharpoonup> 'v CacheEntry) \<Rightarrow> CacheKey set \<Rightarrow> CacheKey \<times> Time \<Rightarrow> bool" where
  "oldest_of m seen acc =
     (if seen = {} then snd acc = 0
      else fst acc \<in> seen \<and> snd acc \<noteq> 0 \<and>
           (\<exists>e. m (fst acc) = Some e \<and> Expiration e = snd acc) \<and>
           (\<forall>k\<in>seen. \<forall>e. m k = Some e \<longrightarrow> snd acc \<le> Expiration e))"


section \<open>Concrete values for the instances\<close>

text \<open>
  The theorems below are tried on these: a manager whose callbacks leave the \<^verbatim>\<open>State\<close>
  and the input fragment alone and return what is given, an engine over stores that find no actor and no
  session and answer every write with \<open>written\<close>, a fragment, and a stand-in for
  \<^verbatim>\<open>html/template\<close> that fails to parse the unclosed action \<^verbatim>\<open>{{\<close>, fails to execute a
  reference to a field that \<^verbatim>\<open>Fragment\<close> does not have, and renders any other text
  as it is.
\<close>

abbreviation fixture_manager ::
  "ManagerID \<Rightarrow> ManagerID list \<Rightarrow> error option \<Rightarrow> error option \<Rightarrow> (nat, nat) Manager" where
  "fixture_manager i deps processed postProcessed \<equiv>
     \<lparr>GetID = i, GetDependencies = deps, Process = (\<lambda>copy s. (processed, copy, s)),
      PostProcess = (\<lambda>s. (postProcessed, s))\<rparr>"

abbreviation fixture_engine ::
  "error option \<Rightarrow> (nat, nat) Manager list \<Rightarrow> ManagerID list \<Rightarrow> (nat, nat) Engine" where
  "fixture_engine written ms order \<equiv>
     \<lparr>Engine.ID = ''thor'', Engine.Name = ''Thor'',
      actorStore = (\<lambda>i. Inr None), sessionStore = (\<lambda>i. Inr None),
      interactionFragmentStore = \<lparr>Upsert_result = (\<lambda>f. written), upserted = []\<rparr>,
      managers = ms, managerOrder = order\<rparr>"

abbreviation fixture_fragment :: "nat Fragment" where
  "fixture_fragment \<equiv>
     \<lparr>Fragment.ID = ''f1'', ActorID = ''u1'', SessionID = ''s1'', Fragment.Content = ''hello'',
      Metadata = None, Embedding = [], Fragment.Actor = None, Fragment.Session = None,
      Fragment.CreatedAt = 0, Fragment.UpdatedAt = 0, Fragment.DeletedAt = None\<rparr>"

abbreviation fixture_templates :: "(nat, nat, string) TemplateLib" where
  "fixture_templates \<equiv>
     \<lparr>Parse = (\<lambda>funcs t. if t = ''{{''
                 then Inl (Errorf ''template: section:1: unclosed action'') else Inr t),
      Execute = (\<lambda>tmpl data. if tmpl = ''{{.Input.Missing}}''
                 then Inl (Errorf ''can't evaluate field Missing'') else Inr tmpl)\<rparr>"


section \<open>The cache: eviction and the size bound\<close>

lemma Expiration_pos: "0 < Add (time_Now clock) d"
proof -
  have "- (2 ^ 63) \<le> sint d" using sint_ge [of d] by simp
  then show ?thesis by (simp add: Add_def time_Now_def unixEpoch_def)
qed

lemma evict_step_oldest:
  assumes "oldest_of m seen acc" "m k = Some e" "Expiration e \<noteq> 0"
  shows "oldest_of m (insert k seen) (evict_step m acc k)"
  using assms
  by (auto simp: oldest_of_def evict_step_def IsZero_def Before_def split: if_splits)

lemma evict_fold_oldest:
  assumes "\<forall>k\<in>set ks. \<exists>e. m k = Some e \<and> Expiration e \<noteq> 0" "oldest_of m seen acc"
  shows "oldest_of m (seen \<union> set ks) (foldl (evict_step m) acc ks)"
  using assms
proof (induction ks arbitrary: acc seen)
  case Nil
  then show ?case by simp
next
  case (Cons k ks)
  from Cons.prems(1) obtain e where e: "m k = Some e" "Expiration e \<noteq> 0" by auto
  have "oldest_of m (insert k seen) (evict_step m acc k)"
    using evict_step_oldest [OF Cons.prems(2) e] .
  moreover have "\<forall>k\<in>set ks. \<exists>e. m k = Some e \<and> Expiration e \<noteq> 0" using Cons.prems(1) by simp
  ultimately have "oldest_of m (insert k seen \<union> set ks) (foldl (evict_step m) (evict_step m acc k) ks)"
    using Cons.IH by blast
  then show ?case by simp
qed

lemma evictOldest_nonempty:
  assumes wf: "wf_items (items c)" and ro: "range_order order c" and ne: "dom (items c) \<noteq> {}"
  shows "\<exists>victim e. items c victim = Some e \<and>
           (\<forall>k e'. items c k = Some e' \<longrightarrow> Expiration e \<le> Expiration e') \<and>
           evictOldest order (g, c) =
             (g\<lparr>evicted := evicted g + 1\<rparr>, c\<lparr>items := (items c)(victim := None)\<rparr>)"
proof -
  let ?r = "foldl (evict_step (items c)) ([], 0) order"
  have a: "\<forall>k\<in>set order. \<exists>e. items c k = Some e \<and> Expiration e \<noteq> 0"
    using wf ro by (auto simp: wf_items_def range_order_def)
  have "oldest_of (items c) ({} \<union> set order) ?r"
    by (rule evict_fold_oldest [OF a]) (simp add: oldest_of_def)
  then have o: "oldest_of (items c) (dom (items c)) ?r"
    using ro by (simp add: range_order_def)
  from o ne obtain e where e: "items c (fst ?r) = Some e" "Expiration e = snd ?r" "snd ?r \<noteq> 0"
    and mn: "\<forall>k\<in>dom (items c). \<forall>e'. items c k = Some e' \<longrightarrow> snd ?r \<le> Expiration e'"
    by (auto simp: oldest_of_def)
  have "evictOldest order (g, c) =
      (g\<lparr>evicted := evicted g + 1\<rparr>, c\<lparr>items := (items c)(fst ?r := None)\<rparr>)"
    using e(3) by (simp add: evictOldest_def Let_def IsZero_def)
  moreover have "\<forall>k e'. items c k = Some e' \<longrightarrow> Expiration e \<le> Expiration e'"
    using mn e(2) by (auto simp: dom_def)
  ultimately show ?thesis using e(1) by blast
qed

lemma wf_items_upd:
  "wf_items m \<Longrightarrow> Expiration e \<noteq> 0 \<Longrightarrow> wf_items (m(k \<mapsto> e))"
  by (auto simp: wf_items_def)

lemma wf_items_del: "wf_items m \<Longrightarrow> wf_items (m(k := None))"
  by (auto simp: wf_items_def)

lemma wf_items_evictOldest:
  "wf_items (items (snd gc)) \<Longrightarrow> wf_items (items (snd (evictOldest order gc)))"
  by (simp add: evictOldest_def Let_def wf_items_del)

lemma wf_items_Set:
  assumes "wf_items (items (snd gc))"
  shows "wf_items (items (snd (Set order clock key val gc)))"
proof -
  have "Expiration \<lparr>CacheEntry.Value = val, Expiration = Add (time_Now clock) d\<rparr> \<noteq> 0" for d
    using Expiration_pos [of clock d] by simp
  then show ?thesis
    using assms by (simp add: Set_def Let_def wf_items_upd wf_items_evictOldest)
qed

lemma dom_tick: "dom (items (snd (cleanup_tick clock gc))) \<subseteq> dom (items (snd gc))"
  by (auto simp: cleanup_tick_def Let_def dom_def split: if_splits)

lemma wf_items_tick:
  assumes "wf_items (items (snd gc))"
  shows "wf_items (items (snd (cleanup_tick clock gc)))"
proof -
  have "finite (dom (items (snd (cleanup_tick clock gc))))"
    using assms dom_tick [of clock gc] by (auto simp: wf_items_def intro: finite_subset)
  moreover have "items (snd (cleanup_tick clock gc)) k = Some e \<Longrightarrow> items (snd gc) k = Some e" for k e
    by (auto simp: cleanup_tick_def Let_def split: if_splits)
  ultimately show ?thesis using assms by (auto simp: wf_items_def)
qed

lemma wf_items_apply_op:
  "wf_items (items (snd (apply_op gc op)))" if "wf_items (items (snd gc))"
proof (cases op)
  case (OpSet order clock key val)
  then show ?thesis using that by (simp add: wf_items_Set)
next
  case (OpGet clock key)
  then show ?thesis using that by (simp add: Get_def Let_def split: option.splits)
next
  case (OpDelete key)
  then show ?thesis using that by (simp add: Delete_def wf_items_del)
next
  case OpClear
  then show ?thesis by (simp add: Clear_def wf_items_def)
next
  case (OpTick clock)
  then show ?thesis using that by (simp add: wf_items_tick)
next
  case OpClose
  then show ?thesis using that by (simp add: Close_def)
qed

lemma wf_items_run_ops:
  "wf_items (items (snd gc)) \<Longrightarrow> wf_items (items (snd (run_ops gc ops)))"
  by (induction ops arbitrary: gc) (auto simp: wf_items_apply_op)

lemma wf_items_New: "wf_items (items (New config))"
  by (simp add: New_def wf_items_def)

lemma maxSize_evictOldest: "maxSize (snd (evictOldest order gc)) = maxSize (snd gc)"
  by (simp add: evictOldest_def Let_def)

lemma maxSize_apply_op: "maxSize (snd (apply_op gc op)) = maxSize (snd gc)"
  by (cases op)
     (auto simp: Set_def Let_def maxSize_evictOldest Get_def Delete_def Clear_def Close_def
        cleanup_tick_def split: option.splits)

lemma maxSize_run_ops: "maxSize (snd (run_ops gc ops)) = maxSize (snd gc)"
  by (induction ops arbitrary: gc) (auto simp: maxSize_apply_op)

lemma card_dom_del:
  "finite (dom m) \<Longrightarrow> m k = Some e \<Longrightarrow> card (dom (m(k := None))) = card (dom m) - 1"
  by (simp add: card_Diff_singleton domI)

lemma card_dom_upd_le: "finite (dom m) \<Longrightarrow> card (dom (m(k \<mapsto> e))) \<le> Suc (card (dom m))"
  by (simp add: card_insert_if)

lemma len_items_Set_bound:
  assumes wf: "wf_items (items c)" and ro: "range_order order c"
    and le: "len_items c \<le> maxSize c" and pos: "1 \<le> maxSize c"
  shows "len_items (snd (Set order clock key val (g, c))) \<le> maxSize c"
proof (cases "len_items c \<ge> maxSize c")
  case True
  with le pos have n: "len_items c = maxSize c" "dom (items c) \<noteq> {}"
    by (auto simp: len_items_def)
  from evictOldest_nonempty [OF wf ro n(2), of g] obtain victim e where
    v: "items c victim = Some e"
    and ev: "evictOldest order (g, c) =
      (g\<lparr>evicted := evicted g + 1\<rparr>, c\<lparr>items := (items c)(victim := None)\<rparr>)"
    by blast
  have fin: "finite (dom (items c))" using wf by (simp add: wf_items_def)
  have "card (dom ((items c)(victim := None))) = card (dom (items c)) - 1"
    using card_dom_del [OF fin v] .
  moreover have "card (dom (items c)) \<ge> 1" using n(2) fin by (simp add: Suc_leI card_gt_0_iff)
  moreover have "card (dom (((items c)(victim := None))(key \<mapsto> x)))
      \<le> Suc (card (dom ((items c)(victim := None))))" for x
    using fin by (intro card_dom_upd_le) simp
  ultimately have "int (card (dom (((items c)(victim := None))(key \<mapsto> x)))) \<le> len_items c" for x
    by (simp add: len_items_def)
  then show ?thesis using True ev le by (simp add: Set_def Let_def len_items_def)
next
  case False
  have fin: "finite (dom (items c))" using wf by (simp add: wf_items_def)
  have "int (card (dom ((items c)(key \<mapsto> x)))) \<le> len_items c + 1" for x
    using card_dom_upd_le [OF fin, of key x] by (simp add: len_items_def)
  then show ?thesis using False [unfolded len_items_def]
    by (simp add: Set_def Let_def len_items_def)
qed

lemma len_items_tick: 
  assumes "wf_items (items (snd gc))"
  shows "len_items (snd (cleanup_tick clock gc)) \<le> len_items (snd gc)"
  using assms dom_tick [of clock gc]
  by (simp add: len_items_def wf_items_def card_mono)

lemma len_items_apply_op_bound:
  assumes wf: "wf_items (items (snd gc))" and ok: "ranges_ok gc [op]"
    and le: "len_items (snd gc) \<le> maxSize (snd gc)" and pos: "1 \<le> maxSize (snd gc)"
  shows "len_items (snd (apply_op gc op)) \<le> maxSize (snd gc)"
proof (cases op)
  case (OpSet order clock key val)
  then show ?thesis
    using len_items_Set_bound [OF wf _ le pos, of order clock key val "fst gc"] ok by simp
next
  case (OpGet clock key)
  then show ?thesis using le by (simp add: Get_def Let_def split: option.splits)
next
  case (OpDelete key)
  have "card (dom ((items (snd gc))(key := None))) \<le> card (dom (items (snd gc)))"
    using wf by (simp add: wf_items_def card_mono)
  then show ?thesis using le OpDelete by (simp add: Delete_def len_items_def)
next
  case OpClear
  then show ?thesis using pos by (simp add: Clear_def len_items_def)
next
  case (OpTick clock)
  then show ?thesis using le len_items_tick [OF wf, of clock] by simp
next
  case OpClose
  then show ?thesis using le by (simp add: Close_def len_items_def)
qed

lemma ranges_ok_Cons: "ranges_ok gc (op # ops) = (ranges_ok gc [op] \<and> ranges_ok (apply_op gc op) ops)"
  by (cases op) simp_all

lemma len_items_run_ops_bound:
  assumes "wf_items (items (snd gc))" "ranges_ok gc ops"
    "len_items (snd gc) \<le> maxSize (snd gc)" "1 \<le> maxSize (snd gc)"
  shows "len_items (snd (run_ops gc ops)) \<le> maxSize (snd gc)"
  using assms
proof (induction ops arbitrary: gc)
  case Nil
  then show ?case by simp
next
  case (Cons op ops)
  from Cons.prems(2) have ok: "ranges_ok gc [op]" "ranges_ok (apply_op gc op) ops"
    using ranges_ok_Cons by blast+
  have "len_items (snd (apply_op gc op)) \<le> maxSize (snd (apply_op gc op))"
    using len_items_apply_op_bound [OF Cons.prems(1) ok(1) Cons.prems(3,4)]
    by (simp add: maxSize_apply_op)
  then have "len_items (snd (run_ops (apply_op gc op) ops)) \<le> maxSize (snd (apply_op gc op))"
    using Cons.IH [of "apply_op gc op"] ok(2) Cons.prems(1,4)
    by (simp add: wf_items_apply_op maxSize_apply_op)
  then show ?case by (simp add: maxSize_apply_op)
qed

lemma evict_fold_empty: "foldl (evict_step Map.empty) acc ks = acc"
  by (induction ks) (simp_all add: evict_step_def)





lemma Set_at_capacity:
  assumes wf: "wf_items (items c)" and ro: "range_order order c"
    and ne: "dom (items c) \<noteq> {}" and full: "maxSize c \<le> len_items c"
  shows "\<exists>victim e. items c victim = Some e \<and>
      (\<forall>k e'. items c k = Some e' \<longrightarrow> Expiration e \<le> Expiration e') \<and>
      Set order clock key val (g, c) =
        (g\<lparr>evicted := evicted g + 1\<rparr>,
         c\<lparr>items := ((items c)(victim := None))(key \<mapsto>
            \<lparr>CacheEntry.Value = val, Expiration = Add (time_Now clock) (ttl c)\<rparr>)\<rparr>)"
proof -
  from evictOldest_nonempty [OF wf ro ne, of g] obtain victim e where
    v: "items c victim = Some e" "\<forall>k e'. items c k = Some e' \<longrightarrow> Expiration e \<le> Expiration e'"
    and ev: "evictOldest order (g, c) =
      (g\<lparr>evicted := evicted g + 1\<rparr>, c\<lparr>items := (items c)(victim := None)\<rparr>)"
    by blast
  have "Set order clock key val (g, c) =
        (g\<lparr>evicted := evicted g + 1\<rparr>,
         c\<lparr>items := ((items c)(victim := None))(key \<mapsto>
            \<lparr>CacheEntry.Value = val, Expiration = Add (time_Now clock) (ttl c)\<rparr>)\<rparr>)"
    using full ev by (simp add: Set_def Let_def)
  with v show ?thesis by blast
qed



lemma IsZero_Add_Now: "IsZero (Add (time_Now clock) d) = False"
  using Expiration_pos [of clock d] by (simp add: IsZero_def)

lemma IsZero_zero: "IsZero 0"
  by (simp add: IsZero_def)

lemmas cache_eval = IsZero_zero Set_def New_def len_items_def evictOldest_def evict_step_def Let_def
  range_order_def IsZero_Add_Now Before_def

subsection \<open>Statistics counters\<close>

text \<open>
  Claim C3 asks that the statistics of one cache instance are untouched by the
  operations on another. The counters are package-level variables: a \<^verbatim>\<open>Get\<close> that
  misses on a fresh cache \<open>New config\<close> adds one to the \<^verbatim>\<open>Misses\<close> that \<^verbatim>\<open>GetStats\<close>
  reports for any other cache \<open>b\<close>, with every other field of the report unchanged.
\<close>

theorem stats_counters_shared:
  "GetStats (fst (snd (Get clock key (g, New config))), b) =
     (GetStats (g, b))\<lparr>Misses := Misses (GetStats (g, b)) + 1\<rparr> \<and>
   Misses (GetStats (fst (snd (Get clock key (g, New config))), b)) \<noteq> Misses (GetStats (g, b))"
  by (simp add: Get_def New_def GetStats_def)

subsection \<open>Eviction on a full cache\<close>




subsection \<open>The size bound\<close>

text \<open>
  Claim C10. A cache created with \<^verbatim>\<open>MaxSize\<close> at least 1 never holds more than
  \<^verbatim>\<open>MaxSize\<close> entries, whatever calls of \<^verbatim>\<open>Set\<close>, \<^verbatim>\<open>Get\<close>, \<^verbatim>\<open>Delete\<close>, \<^verbatim>\<open>Clear\<close>, \<^verbatim>\<open>Close\<close> and
  ticks of the cleanup follow its creation. On such a cache \<^verbatim>\<open>Set\<close> at or above the
  capacity evicts one entry, counts it, and then inserts the new one; \<^verbatim>\<open>Set\<close> below the
  capacity only inserts; \<^verbatim>\<open>Delete\<close> and \<^verbatim>\<open>Clear\<close> only remove entries. The bound on
  \<^verbatim>\<open>MaxSize\<close> is needed: with \<^verbatim>\<open>MaxSize\<close> 0, one \<^verbatim>\<open>Set\<close> on the fresh cache leaves one
  entry stored.
\<close>

theorem cache_size_bounded:
  "(1 \<le> MaxSize config \<and> ranges_ok (g, New config) ops \<longrightarrow>
      len_items (snd (run_ops (g, New config) ops)) \<le> MaxSize config) \<and>
   (1 \<le> MaxSize config \<and> gc = run_ops (g, New config) ops \<and>
    range_order order (snd gc) \<and> maxSize (snd gc) \<le> len_items (snd gc) \<longrightarrow>
      (\<exists>victim e. items (snd gc) victim = Some e \<and>
         Set order clock key val gc =
           ((fst gc)\<lparr>evicted := evicted (fst gc) + 1\<rparr>,
            (snd gc)\<lparr>items := ((items (snd gc))(victim := None))(key \<mapsto>
               \<lparr>CacheEntry.Value = val,
                Expiration = Add (time_Now clock) (ttl (snd gc))\<rparr>)\<rparr>))) \<and>
   (len_items (snd gc) < maxSize (snd gc) \<longrightarrow>
      Set order clock key val gc =
        (fst gc, (snd gc)\<lparr>items := (items (snd gc))(key \<mapsto>
           \<lparr>CacheEntry.Value = val, Expiration = Add (time_Now clock) (ttl (snd gc))\<rparr>)\<rparr>)) \<and>
   dom (items (snd (Delete k gc))) = dom (items (snd gc)) - {k} \<and>
   dom (items (snd (Clear gc))) = {} \<and>
   len_items (snd (Set order clock key val (g, New (config\<lparr>MaxSize := 0\<rparr>)))) = 1"
proof (intro conjI)
  show "1 \<le> MaxSize config \<and> ranges_ok (g, New config) ops \<longrightarrow>
      len_items (snd (run_ops (g, New config) ops)) \<le> MaxSize config"
  proof
    assume a: "1 \<le> MaxSize config \<and> ranges_ok (g, New config) ops"
    have m: "maxSize (New config :: 'a Cache) = MaxSize config" by (simp add: New_def)
    have "len_items (snd (g, New config :: 'a Cache)) \<le> maxSize (snd (g, New config :: 'a Cache))"
      using a by (simp add: New_def len_items_def)
    then have "len_items (snd (run_ops (g, New config) ops)) \<le> maxSize (snd (g, New config :: 'a Cache))"
      using a m by (intro len_items_run_ops_bound) (simp_all add: wf_items_New)
    then show "len_items (snd (run_ops (g, New config) ops)) \<le> MaxSize config"
      using m by simp
  qed
  show "1 \<le> MaxSize config \<and> gc = run_ops (g, New config) ops \<and>
    range_order order (snd gc) \<and> maxSize (snd gc) \<le> len_items (snd gc) \<longrightarrow>
      (\<exists>victim e. items (snd gc) victim = Some e \<and>
         Set order clock key val gc =
           ((fst gc)\<lparr>evicted := evicted (fst gc) + 1\<rparr>,
            (snd gc)\<lparr>items := ((items (snd gc))(victim := None))(key \<mapsto>
               \<lparr>CacheEntry.Value = val,
                Expiration = Add (time_Now clock) (ttl (snd gc))\<rparr>)\<rparr>))"
  proof
    assume a: "1 \<le> MaxSize config \<and> gc = run_ops (g, New config) ops \<and>
      range_order order (snd gc) \<and> maxSize (snd gc) \<le> len_items (snd gc)"
    have "wf_items (items (snd (run_ops (g, New config) ops)))"
      by (rule wf_items_run_ops) (simp add: wf_items_New)
    with a have wf: "wf_items (items (snd gc))" by blast
    have "maxSize (snd (run_ops (g, New config) ops)) = MaxSize config"
      by (simp add: maxSize_run_ops New_def)
    with a have m: "maxSize (snd gc) = MaxSize config" by blast
    from a have ro: "range_order order (snd gc)"
      and full: "maxSize (snd gc) \<le> len_items (snd gc)" by blast+
    have "1 \<le> len_items (snd gc)" using a m full by linarith
    then have ne: "dom (items (snd gc)) \<noteq> {}" by (auto simp: len_items_def)
    from Set_at_capacity [OF wf ro ne full, of clock key val "fst gc"]
    show "\<exists>victim e. items (snd gc) victim = Some e \<and>
         Set order clock key val gc =
           ((fst gc)\<lparr>evicted := evicted (fst gc) + 1\<rparr>,
            (snd gc)\<lparr>items := ((items (snd gc))(victim := None))(key \<mapsto>
               \<lparr>CacheEntry.Value = val,
                Expiration = Add (time_Now clock) (ttl (snd gc))\<rparr>)\<rparr>)"
      by auto
  qed
  show "len_items (snd gc) < maxSize (snd gc) \<longrightarrow>
      Set order clock key val gc =
        (fst gc, (snd gc)\<lparr>items := (items (snd gc))(key \<mapsto>
           \<lparr>CacheEntry.Value = val, Expiration = Add (time_Now clock) (ttl (snd gc))\<rparr>)\<rparr>)"
    by (simp add: Set_def Let_def)
  show "dom (items (snd (Delete k gc))) = dom (items (snd gc)) - {k}"
    by (simp add: Delete_def)
  show "dom (items (snd (Clear gc))) = {}"
    by (simp add: Clear_def)
  show "len_items (snd (Set order clock key val (g, New (config\<lparr>MaxSize := 0\<rparr>)))) = 1"
    by (simp add: Set_def New_def len_items_def evictOldest_def evict_fold_empty IsZero_def Let_def)
qed

text \<open>
  Claim C10 at a concrete cache of capacity 1: a run of four operations stays within
  the bound, the \<^verbatim>\<open>Set\<close> of \<open>''b''\<close> on the full cache evicts \<open>''a''\<close> and counts it, and
  the \<^verbatim>\<open>Set\<close> of \<open>''a''\<close> on the fresh cache evicts nothing.
\<close>

theorem cache_size_bounded_witness:
  "1 \<le> MaxSize \<lparr>MaxSize = 1, TTL = 1000, CleanupPeriod = 1000\<rparr> \<and>
   ranges_ok (\<lparr>hits = 0, misses = 0, evicted = 0\<rparr>,
      New \<lparr>MaxSize = 1, TTL = 1000, CleanupPeriod = 1000\<rparr>)
     [OpSet [] 5 ''a'' (1::nat), OpSet [''a''] 6 ''b'' 2, OpGet 7 ''b'', OpTick 8] \<and>
   len_items (snd (run_ops (\<lparr>hits = 0, misses = 0, evicted = 0\<rparr>,
      New \<lparr>MaxSize = 1, TTL = 1000, CleanupPeriod = 1000\<rparr>)
     [OpSet [] 5 ''a'' (1::nat), OpSet [''a''] 6 ''b'' 2, OpGet 7 ''b'', OpTick 8])) \<le> 1 \<and>
   range_order [''a''] (snd (run_ops (\<lparr>hits = 0, misses = 0, evicted = 0\<rparr>,
      New \<lparr>MaxSize = 1, TTL = 1000, CleanupPeriod = 1000\<rparr>) [OpSet [] 5 ''a'' (1::nat)])) \<and>
   maxSize (snd (run_ops (\<lparr>hits = 0, misses = 0, evicted = 0\<rparr>,
      New \<lparr>MaxSize = 1, TTL = 1000, CleanupPeriod = 1000\<rparr>) [OpSet [] 5 ''a'' (1::nat)]))
     \<le> len_items (snd (run_ops (\<lparr>hits = 0, misses = 0, evicted = 0\<rparr>,
      New \<lparr>MaxSize = 1, TTL = 1000, CleanupPeriod = 1000\<rparr>) [OpSet [] 5 ''a'' (1::nat)])) \<and>
   evicted (fst (Set [''a''] 6 ''b'' 2 (run_ops (\<lparr>hits = 0, misses = 0, evicted = 0\<rparr>,
      New \<lparr>MaxSize = 1, TTL = 1000, CleanupPeriod = 1000\<rparr>) [OpSet [] 5 ''a'' (1::nat)]))) = 1 \<and>
   dom (items (snd (Set [''a''] 6 ''b'' 2 (run_ops (\<lparr>hits = 0, misses = 0, evicted = 0\<rparr>,
      New \<lparr>MaxSize = 1, TTL = 1000, CleanupPeriod = 1000\<rparr>) [OpSet [] 5 ''a'' (1::nat)]))))
     = {''b''} \<and>
   len_items (New \<lparr>MaxSize = 1, TTL = 1000, CleanupPeriod = 1000\<rparr> :: nat Cache)
     < maxSize (New \<lparr>MaxSize = 1, TTL = 1000, CleanupPeriod = 1000\<rparr> :: nat Cache) \<and>
   evicted (fst (Set [] 5 ''a'' (1::nat) (\<lparr>hits = 0, misses = 0, evicted = 0\<rparr>,
      New \<lparr>MaxSize = 1, TTL = 1000, CleanupPeriod = 1000\<rparr>))) = 0 \<and>
   dom (items (snd (Set [] 5 ''a'' (1::nat) (\<lparr>hits = 0, misses = 0, evicted = 0\<rparr>,
      New \<lparr>MaxSize = 1, TTL = 1000, CleanupPeriod = 1000\<rparr>)))) = {''a''} \<and>
   len_items (snd (Set [] 5 ''a'' (1::nat) (\<lparr>hits = 0, misses = 0, evicted = 0\<rparr>,
      New (\<lparr>MaxSize = 1, TTL = 1000, CleanupPeriod = 1000\<rparr>\<lparr>MaxSize := 0\<rparr>)))) = 1"
proof -
  let ?g = "\<lparr>hits = 0, misses = 0, evicted = 0\<rparr>"
  let ?cfg = "\<lparr>MaxSize = 1, TTL = 1000, CleanupPeriod = 1000\<rparr>"
  let ?ops = "[OpSet [] 5 ''a'' (1::nat), OpSet [''a''] 6 ''b'' 2, OpGet 7 ''b'', OpTick 8]"
  let ?one = "run_ops (?g, New ?cfg) [OpSet [] 5 ''a'' (1::nat)]"
  have r: "1 \<le> MaxSize ?cfg" "ranges_ok (?g, New ?cfg) ?ops"
    by (simp_all add: cache_eval)
  note inst = cache_size_bounded [where config = ?cfg and g = ?g and ops = ?ops
      and order = "[]" and clock = 5 and key = "''a''" and val = "1::nat"]
  have 1: "len_items (snd (run_ops (?g, New ?cfg) ?ops)) \<le> 1"
    using r inst [THEN conjunct1] by simp
  have h2: "range_order [''a''] (snd ?one)" "maxSize (snd ?one) \<le> len_items (snd ?one)"
    "evicted (fst ?one) = 0" "dom (items (snd ?one)) = {''a''}"
    by (simp_all add: cache_eval)
  from cache_size_bounded [where config = ?cfg and g = ?g
      and ops = "[OpSet [] 5 ''a'' (1::nat)]" and gc = ?one and order = "[''a'']"
      and clock = 6 and key = "''b''" and val = 2, THEN conjunct2, THEN conjunct1] r(1) h2(1,2)
  obtain victim e where
    v: "items (snd ?one) victim = Some e"
    and s: "Set [''a''] 6 ''b'' 2 ?one =
           ((fst ?one)\<lparr>evicted := evicted (fst ?one) + 1\<rparr>,
            (snd ?one)\<lparr>items := ((items (snd ?one))(victim := None))(''b'' \<mapsto>
               \<lparr>CacheEntry.Value = 2,
                Expiration = Add (time_Now 6) (ttl (snd ?one))\<rparr>)\<rparr>)"
    by (auto simp del: run_ops.simps)
  from v h2(4) have "victim = ''a''" by (auto simp del: run_ops.simps)
  then have 2: "evicted (fst (Set [''a''] 6 ''b'' 2 ?one)) = 1"
    "dom (items (snd (Set [''a''] 6 ''b'' 2 ?one))) = {''b''}"
    using h2(3,4) by (simp_all only: s) (auto simp del: run_ops.simps)
  have h3: "len_items (New ?cfg :: nat Cache) < maxSize (New ?cfg :: nat Cache)"
    by (simp add: cache_eval)
  from cache_size_bounded [where gc = "(?g, New ?cfg :: nat Cache)" and order = "[]"
      and clock = 5 and key = "''a''" and val = "1::nat",
      THEN conjunct2, THEN conjunct2, THEN conjunct1] h3
  have 3: "evicted (fst (Set [] 5 ''a'' (1::nat) (?g, New ?cfg))) = 0"
    "dom (items (snd (Set [] 5 ''a'' (1::nat) (?g, New ?cfg)))) = {''a''}"
    by (simp_all add: New_def)
  have 4: "len_items (snd (Set [] 5 ''a'' (1::nat) (?g, New (?cfg\<lparr>MaxSize := 0\<rparr>)))) = 1"
    using inst [THEN conjunct2, THEN conjunct2, THEN conjunct2, THEN conjunct2, THEN conjunct2]
    by simp
  from r 1 h2(1,2) 2 h3 3 4 show ?thesis by blast
qed


section \<open>The shared state and the prompt builder\<close>

text \<open>
  Claim C8. \<^verbatim>\<open>Reset\<close> leaves both maps empty, so that every lookup in either finds
  nothing, and leaves \<^verbatim>\<open>Input\<close>, \<^verbatim>\<open>Output\<close> and \<^verbatim>\<open>Actor\<close> as they were.
\<close>

theorem Reset_clears_maps:
  "GetManagerData (Reset s) key = None \<and> GetCustomData (Reset s) name = None \<and>
   managerData (Reset s) = Some Map.empty \<and> customData (Reset s) = Some Map.empty \<and>
   Input (Reset s) = Input s \<and> Output (Reset s) = Output s \<and>
   State.Actor (Reset s) = State.Actor s"
  by (simp add: Reset_def GetManagerData_def GetCustomData_def map_index_def)

lemma WithManagerDataBatch_poisoned:
  "err tb \<noteq> None \<Longrightarrow> WithManagerDataBatch keys tb = tb"
  by (cases keys) (simp_all add: WithManagerData_def Let_def)

lemma compose_sections_acc:
  "compose_sections lib tb ss acc =
     (case compose_sections lib tb ss [] of Inl e \<Rightarrow> Inl e | Inr ms \<Rightarrow> Inr (acc @ ms))"
proof (induction ss arbitrary: acc)
  case Nil
  then show ?case by simp
next
  case (Cons s ss)
  show ?case
  proof (cases "render_section lib tb s")
    case (Inl e)
    then show ?thesis by simp
  next
    case (Inr m)
    show ?thesis
      using Cons.IH [of "acc @ [m]"] Cons.IH [of "[m]"] Inr
      by (simp split: sum.splits)
  qed
qed

lemma compose_sections_all:
  assumes "\<forall>s\<in>set ss. \<exists>m. render_section lib tb s = Inr m"
  shows "compose_sections lib tb ss [] = Inr (map (\<lambda>s. projr (render_section lib tb s)) ss)"
  using assms
proof (induction ss)
  case Nil
  then show ?case by simp
next
  case (Cons s ss)
  then obtain m where m: "render_section lib tb s = Inr m" by auto
  have "compose_sections lib tb ss [] = Inr (map (\<lambda>s. projr (render_section lib tb s)) ss)"
    using Cons by simp
  then show ?case
    using m compose_sections_acc [of lib tb ss "[m]"] by simp
qed

lemma render_section_Inr:
  assumes "Parse lib (helpers tb) (Template s) = Inr tmpl"
    "Execute lib tmpl (template_data tb) = Inr text"
  shows "render_section lib tb s = Inr \<lparr>Message.Role = PromptSection.Role s, Content = text,
     Message.Name = PromptSection.Name s, ToolCall = None\<rparr>"
  using assms by (simp add: render_section_def)

lemma compose_sections_abort:
  assumes "\<forall>x\<in>set before. \<exists>m. render_section lib tb x = Inr m"
    and "render_section lib tb s = Inl e"
  shows "compose_sections lib tb (before @ s # rest) acc = Inl e"
  using assms by (induction before arbitrary: acc) auto

lemmas builder_eval = NewPromptBuilder_def NewState_def AddSection_def AddSectionWithName_def
  AddSystemSection_def AddUserSection_def AddAssistantSection_def WithManagerData_def
  WithHelper_def WithTools_def GetManagerData_def map_index_def Compose_def render_section_def
  RoleSystem_def RoleUser_def RoleAssistant_def

subsection \<open>The sticky build error\<close>

text \<open>
  Claim C6, as stated, fails twice. After \<^verbatim>\<open>WithManagerData\<close> of a missing key has set
  the error, \<^verbatim>\<open>WithTools\<close> still appends to the tools of the \<^verbatim>\<open>State\<close>: it is a builder
  call and not a no-op. And a builder with no sticky error whose only section has the
  template \<^verbatim>\<open>{{\<close> does not render its sections: \<^verbatim>\<open>Compose\<close> returns the parse error.
\<close>

theorem sticky_error_and_compose_counterexample:
  "err (WithManagerData ''insight'' (NewPromptBuilder (NewState :: (nat, nat) State))) \<noteq> None \<and>
   Tools (state (WithManagerData ''insight'' (NewPromptBuilder (NewState :: (nat, nat) State)))) = [] \<and>
   Tools (state (WithTools [7]
     (WithManagerData ''insight'' (NewPromptBuilder (NewState :: (nat, nat) State))))) = [7] \<and>
   err (AddSystemSection ''{{'' (NewPromptBuilder (NewState :: (nat, nat) State))) = None \<and>
   Compose fixture_templates
     (AddSystemSection ''{{'' (NewPromptBuilder (NewState :: (nat, nat) State))) =
     Inl (Wrap ''failed to parse template section: ''
            (Errorf ''template: section:1: unclosed action''))"
  by (simp add: builder_eval)

text \<open>
  Claim C6, amended. \<^verbatim>\<open>WithManagerData\<close> of a key absent from the manager data sets the
  error "manager data for key ... not found". Once an error is set, \<^verbatim>\<open>WithHelper\<close>,
  \<^verbatim>\<open>AddSectionWithName\<close>, \<^verbatim>\<open>AddSection\<close>, the three section helpers, \<^verbatim>\<open>WithManagerData\<close>
  and \<^verbatim>\<open>WithManagerDataBatch\<close> return the builder unchanged, and \<^verbatim>\<open>Compose\<close> returns that
  error and no message. With no error set, and every section's template parsing and
  executing, \<^verbatim>\<open>Compose\<close> returns one message per section, in the order of the
  sections, each with the role and name of its section and the text its template
  executes to.
\<close>

theorem sticky_error_and_compose:
  "(err tb = None \<and> GetManagerData (state tb) key = None \<longrightarrow>
      err (WithManagerData key tb) =
        Some (Errorf (''manager data for key '' @ key @ '' not found''))) \<and>
   (err tb = Some e \<longrightarrow>
      WithHelper name fn tb = tb \<and> AddSectionWithName role templateText name tb = tb \<and>
      AddSection role templateText tb = tb \<and> AddSystemSection templateText tb = tb \<and>
      AddUserSection templateText name tb = tb \<and> AddAssistantSection templateText tb = tb \<and>
      WithManagerData key tb = tb \<and> WithManagerDataBatch keys tb = tb \<and>
      Compose lib tb = Inl e) \<and>
   (err tb = None \<and>
    (\<forall>s\<in>set (sections tb). \<exists>tmpl rendered. Parse lib (helpers tb) (Template s) = Inr tmpl \<and>
        Execute lib tmpl (template_data tb) = Inr rendered) \<longrightarrow>
      (\<exists>msgs. Compose lib tb = Inr msgs \<and> length msgs = length (sections tb) \<and>
         (\<forall>i<length msgs.
            Message.Role (msgs ! i) = PromptSection.Role (sections tb ! i) \<and>
            Message.Name (msgs ! i) = PromptSection.Name (sections tb ! i) \<and>
            (\<exists>tmpl. Parse lib (helpers tb) (Template (sections tb ! i)) = Inr tmpl \<and>
               Execute lib tmpl (template_data tb) = Inr (Content (msgs ! i))))))"
proof (intro conjI impI)
  assume "err tb = None \<and> GetManagerData (state tb) key = None"
  then show "err (WithManagerData key tb) =
      Some (Errorf (''manager data for key '' @ key @ '' not found''))"
    by (simp add: WithManagerData_def)
next
  assume e: "err tb = Some e"
  show "WithHelper name fn tb = tb" using e by (simp add: WithHelper_def)
  show "AddSectionWithName role templateText name tb = tb" using e by (simp add: AddSectionWithName_def)
  show "AddSection role templateText tb = tb" using e by (simp add: AddSection_def AddSectionWithName_def)
  show "AddSystemSection templateText tb = tb"
    using e by (simp add: AddSystemSection_def AddSection_def AddSectionWithName_def)
  show "AddUserSection templateText name tb = tb"
    using e by (simp add: AddUserSection_def AddSectionWithName_def)
  show "AddAssistantSection templateText tb = tb"
    using e by (simp add: AddAssistantSection_def AddSection_def AddSectionWithName_def)
  show "WithManagerData key tb = tb" using e by (simp add: WithManagerData_def)
  show "WithManagerDataBatch keys tb = tb" using e by (simp add: WithManagerDataBatch_poisoned)
  show "Compose lib tb = Inl e" using e by (simp add: Compose_def)
next
  assume a: "err tb = None \<and>
    (\<forall>s\<in>set (sections tb). \<exists>tmpl rendered. Parse lib (helpers tb) (Template s) = Inr tmpl \<and>
        Execute lib tmpl (template_data tb) = Inr rendered)"
  let ?msgs = "map (\<lambda>s. projr (render_section lib tb s)) (sections tb)"
  have ok: "\<forall>s\<in>set (sections tb). \<exists>m. render_section lib tb s = Inr m"
    using a by (fastforce simp: render_section_def)
  have c: "Compose lib tb = Inr ?msgs"
    using a compose_sections_all [OF ok] by (simp add: Compose_def)
  have "Message.Role (?msgs ! i) = PromptSection.Role (sections tb ! i) \<and>
        Message.Name (?msgs ! i) = PromptSection.Name (sections tb ! i) \<and>
        (\<exists>tmpl. Parse lib (helpers tb) (Template (sections tb ! i)) = Inr tmpl \<and>
           Execute lib tmpl (template_data tb) = Inr (Content (?msgs ! i)))"
    if "i < length (sections tb)" for i
  proof -
    from that have "sections tb ! i \<in> set (sections tb)" by simp
    with a obtain tmpl rendered where
      t: "Parse lib (helpers tb) (Template (sections tb ! i)) = Inr tmpl"
         "Execute lib tmpl (template_data tb) = Inr rendered"
      by blast
    show ?thesis using that render_section_Inr [OF t] t by simp
  qed
  then show "\<exists>msgs. Compose lib tb = Inr msgs \<and> length msgs = length (sections tb) \<and>
         (\<forall>i<length msgs.
            Message.Role (msgs ! i) = PromptSection.Role (sections tb ! i) \<and>
            Message.Name (msgs ! i) = PromptSection.Name (sections tb ! i) \<and>
            (\<exists>tmpl. Parse lib (helpers tb) (Template (sections tb ! i)) = Inr tmpl \<and>
               Execute lib tmpl (template_data tb) = Inr (Content (msgs ! i))))"
    using c by (intro exI [of _ ?msgs]) simp
qed

text \<open>
  Claim C6, amended, on a builder over a fresh \<^verbatim>\<open>State\<close>: the key \<open>''insight''\<close> is
  missing, the section added after it is dropped and \<^verbatim>\<open>Compose\<close> returns the error;
  without the reference, the two sections come out as two messages in order.
\<close>

theorem sticky_error_and_compose_witness:
  "err (NewPromptBuilder (NewState :: (nat, nat) State)) = None \<and>
   GetManagerData (state (NewPromptBuilder (NewState :: (nat, nat) State))) ''insight'' = None \<and>
   err (WithManagerData ''insight'' (NewPromptBuilder (NewState :: (nat, nat) State))) =
     Some (Errorf ''manager data for key insight not found'') \<and>
   AddSystemSection ''You are {{.Name}}''
     (WithManagerData ''insight'' (NewPromptBuilder (NewState :: (nat, nat) State))) =
     WithManagerData ''insight'' (NewPromptBuilder (NewState :: (nat, nat) State)) \<and>
   Compose fixture_templates
     (AddSystemSection ''You are {{.Name}}''
       (WithManagerData ''insight'' (NewPromptBuilder (NewState :: (nat, nat) State)))) =
     Inl (Errorf ''manager data for key insight not found'') \<and>
   Compose fixture_templates
     (AddUserSection ''hello'' ''ann''
       (AddSystemSection ''be kind'' (NewPromptBuilder (NewState :: (nat, nat) State)))) =
     Inr [\<lparr>Message.Role = ''system'', Content = ''be kind'', Message.Name = [], ToolCall = None\<rparr>,
          \<lparr>Message.Role = ''user'', Content = ''hello'', Message.Name = ''ann'', ToolCall = None\<rparr>]"
proof -
  let ?new = "NewPromptBuilder (NewState :: (nat, nat) State)"
  let ?bad = "WithManagerData ''insight'' ?new"
  let ?good = "AddUserSection ''hello'' ''ann'' (AddSystemSection ''be kind'' ?new)"
  have h1: "err ?new = None \<and> GetManagerData (state ?new) ''insight'' = None"
    by (simp add: builder_eval)
  have h2: "err ?bad = Some (Errorf ''manager data for key insight not found'')"
    using sticky_error_and_compose [where tb = ?new and key = "''insight''", THEN conjunct1] h1
    by simp
  have c2: "AddSystemSection ''You are {{.Name}}'' ?bad = ?bad \<and>
      Compose fixture_templates (AddSystemSection ''You are {{.Name}}'' ?bad) =
        Inl (Errorf ''manager data for key insight not found'')"
    using sticky_error_and_compose [where tb = ?bad
        and e = "Errorf ''manager data for key insight not found''"
        and templateText = "''You are {{.Name}}''" and lib = fixture_templates,
        THEN conjunct2, THEN conjunct1] h2
    by simp
  have h3: "err ?good = None \<and>
    (\<forall>s\<in>set (sections ?good). \<exists>tmpl rendered.
        Parse fixture_templates (helpers ?good) (Template s) = Inr tmpl \<and>
        Execute fixture_templates tmpl (template_data ?good) = Inr rendered)"
    by (simp add: builder_eval)
  from sticky_error_and_compose [where tb = ?good and lib = fixture_templates,
        THEN conjunct2, THEN conjunct2] h3
  obtain msgs where m: "Compose fixture_templates ?good = Inr msgs"
    "length msgs = length (sections ?good)"
    by blast
  have c3: "Compose fixture_templates ?good =
     Inr [\<lparr>Message.Role = ''system'', Content = ''be kind'', Message.Name = [], ToolCall = None\<rparr>,
          \<lparr>Message.Role = ''user'', Content = ''hello'', Message.Name = ''ann'', ToolCall = None\<rparr>]"
    using m by (simp add: builder_eval)
  from h1 h2 c2 c3 show ?thesis by blast
qed

subsection \<open>Template failures\<close>

text \<open>
  Claim C7 asks that a parse failure and a render failure both abort \<^verbatim>\<open>Compose\<close> with
  an error that names the role of the section. Both abort it, after any number of
  sections that rendered, and no message is returned; the error of a render failure
  carries the role, the error of a parse failure is the fixed text "failed to parse
  template section: " around the cause, whatever the role of the section.
\<close>

theorem template_failure_aborts:
  "(err tb = None \<and> sections tb = before @ s # rest \<and>
    (\<forall>x\<in>set before. \<exists>m. render_section lib tb x = Inr m) \<and>
    Parse lib (helpers tb) (Template s) = Inl cause \<longrightarrow>
      Compose lib tb = Inl (Wrap ''failed to parse template section: '' cause)) \<and>
   (err tb = None \<and> sections tb = before @ s # rest \<and>
    (\<forall>x\<in>set before. \<exists>m. render_section lib tb x = Inr m) \<and>
    Parse lib (helpers tb) (Template s) = Inr tmpl \<and>
    Execute lib tmpl (template_data tb) = Inl cause \<longrightarrow>
      Compose lib tb = Inl (Wrap (''failed to execute template section (role=''
         @ PromptSection.Role s @ ''): '') cause))"
proof (intro conjI impI)
  assume a: "err tb = None \<and> sections tb = before @ s # rest \<and>
    (\<forall>x\<in>set before. \<exists>m. render_section lib tb x = Inr m) \<and>
    Parse lib (helpers tb) (Template s) = Inl cause"
  then have "render_section lib tb s = Inl (Wrap ''failed to parse template section: '' cause)"
    by (simp add: render_section_def)
  with a show "Compose lib tb = Inl (Wrap ''failed to parse template section: '' cause)"
    by (simp add: Compose_def compose_sections_abort)
next
  assume a: "err tb = None \<and> sections tb = before @ s # rest \<and>
    (\<forall>x\<in>set before. \<exists>m. render_section lib tb x = Inr m) \<and>
    Parse lib (helpers tb) (Template s) = Inr tmpl \<and>
    Execute lib tmpl (template_data tb) = Inl cause"
  then have "render_section lib tb s = Inl (Wrap (''failed to execute template section (role=''
         @ PromptSection.Role s @ ''): '') cause)"
    by (simp add: render_section_def)
  with a show "Compose lib tb = Inl (Wrap (''failed to execute template section (role=''
         @ PromptSection.Role s @ ''): '') cause)"
    by (simp add: Compose_def compose_sections_abort)
qed

text \<open>
  Claim C7 at concrete builders: the unclosed action \<^verbatim>\<open>{{\<close> gives the same error in a
  system section and in an assistant section, and a failing execution names the role.
\<close>

theorem template_failure_aborts_witness:
  "err (AddSystemSection ''{{'' (AddUserSection ''hello'' ''ann''
        (NewPromptBuilder (NewState :: (nat, nat) State)))) = None \<and>
   Parse fixture_templates Map.empty ''{{'' =
     Inl (Errorf ''template: section:1: unclosed action'') \<and>
   Compose fixture_templates
     (AddSystemSection ''{{'' (AddUserSection ''hello'' ''ann''
        (NewPromptBuilder (NewState :: (nat, nat) State))))
   = Inl (Wrap ''failed to parse template section: ''
            (Errorf ''template: section:1: unclosed action'')) \<and>
   Compose fixture_templates
     (AddAssistantSection ''{{'' (AddUserSection ''hello'' ''ann''
        (NewPromptBuilder (NewState :: (nat, nat) State))))
   = Inl (Wrap ''failed to parse template section: ''
            (Errorf ''template: section:1: unclosed action'')) \<and>
   Compose fixture_templates
     (AddSystemSection ''{{.Input.Missing}}'' (AddUserSection ''hello'' ''ann''
        (NewPromptBuilder (NewState :: (nat, nat) State))))
   = Inl (Wrap ''failed to execute template section (role=system): ''
            (Errorf ''can't evaluate field Missing''))"
proof -
  let ?hello = "\<lparr>PromptSection.Role = ''user'', Template = ''hello'',
      PromptSection.Name = ''ann''\<rparr>"
  let ?base = "AddUserSection ''hello'' ''ann'' (NewPromptBuilder (NewState :: (nat, nat) State))"
  have h: "err (AddSystemSection ''{{'' ?base) = None"
    "Parse fixture_templates Map.empty ''{{'' =
       Inl (Errorf ''template: section:1: unclosed action'')"
    by (simp_all add: builder_eval)
  have 1: "Compose fixture_templates (AddSystemSection ''{{'' ?base) =
      Inl (Wrap ''failed to parse template section: ''
            (Errorf ''template: section:1: unclosed action''))"
    using template_failure_aborts [where tb = "AddSystemSection ''{{'' ?base"
        and before = "[?hello]"
        and s = "\<lparr>PromptSection.Role = ''system'', Template = ''{{'', PromptSection.Name = []\<rparr>"
        and rest = "[]" and lib = fixture_templates
        and cause = "Errorf ''template: section:1: unclosed action''", THEN conjunct1]
    by (simp add: builder_eval)
  have 2: "Compose fixture_templates (AddAssistantSection ''{{'' ?base) =
      Inl (Wrap ''failed to parse template section: ''
            (Errorf ''template: section:1: unclosed action''))"
    using template_failure_aborts [where tb = "AddAssistantSection ''{{'' ?base"
        and before = "[?hello]"
        and s = "\<lparr>PromptSection.Role = ''assistant'', Template = ''{{'',
          PromptSection.Name = []\<rparr>"
        and rest = "[]" and lib = fixture_templates
        and cause = "Errorf ''template: section:1: unclosed action''", THEN conjunct1]
    by (simp add: builder_eval)
  have 3: "Compose fixture_templates (AddSystemSection ''{{.Input.Missing}}'' ?base) =
      Inl (Wrap ''failed to execute template section (role=system): ''
            (Errorf ''can't evaluate field Missing''))"
    using template_failure_aborts [where tb = "AddSystemSection ''{{.Input.Missing}}'' ?base"
        and before = "[?hello]"
        and s = "\<lparr>PromptSection.Role = ''system'', Template = ''{{.Input.Missing}}'',
          PromptSection.Name = []\<rparr>"
        and rest = "[]" and lib = fixture_templates and tmpl = "''{{.Input.Missing}}''"
        and cause = "Errorf ''can't evaluate field Missing''", THEN conjunct2]
    by (simp add: builder_eval)
  from h 1 2 3 show ?thesis by blast
qed


section \<open>The manager registry\<close>

lemma collect_available_distinct:
  assumes "distinct (map GetID ms)" "\<forall>m\<in>set ms. available (GetID m) = None"
  shows "\<exists>found. collect_available ms available = Inr found \<and>
           dom found = dom available \<union> GetID ` set ms"
  using assms
proof (induction ms arbitrary: available)
  case Nil
  then show ?case by simp
next
  case (Cons m ms)
  have "GetID x \<noteq> GetID m" if "x \<in> set ms" for x
    using Cons.prems(1) that by (metis distinct.simps(2) imageI list.simps(9) set_map)
  then have "\<forall>x\<in>set ms. (available(GetID m \<mapsto> m)) (GetID x) = None"
    using Cons.prems(2) by simp
  moreover have "distinct (map GetID ms)" using Cons.prems(1) by simp
  ultimately obtain found where
    f: "collect_available ms (available(GetID m \<mapsto> m)) = Inr found"
       "dom found = dom (available(GetID m \<mapsto> m)) \<union> GetID ` set ms"
    using Cons.IH [of "available(GetID m \<mapsto> m)"] by blast
  have "collect_available (m # ms) available = Inr found" using Cons.prems(2) f(1) by simp
  moreover have "dom found = dom available \<union> GetID ` set (m # ms)" using f(2) by auto
  ultimately show ?case by blast
qed

lemma collect_available_duplicate:
  assumes "\<not> (distinct (map GetID ms) \<and> (\<forall>m\<in>set ms. available (GetID m) = None))"
  shows "\<exists>i. collect_available ms available = Inl (Errorf (''duplicate manager with ID '' @ i)) \<and>
           i \<in> GetID ` set ms \<and>
           (available i \<noteq> None \<or> 2 \<le> count_list (map GetID ms) i)"
  using assms
proof (induction ms arbitrary: available)
  case Nil
  then show ?case by simp
next
  case (Cons m ms)
  show ?case
  proof (cases "available (GetID m)")
    case (Some other)
    then show ?thesis by auto
  next
    case None
    let ?av = "available(GetID m \<mapsto> m)"
    have "\<not> (distinct (map GetID ms) \<and> (\<forall>x\<in>set ms. ?av (GetID x) = None))"
      using Cons.prems None by auto
    from Cons.IH [OF this] obtain i where
      i: "collect_available ms ?av = Inl (Errorf (''duplicate manager with ID '' @ i))"
         "i \<in> GetID ` set ms" "?av i \<noteq> None \<or> 2 \<le> count_list (map GetID ms) i"
      by blast
    have "available i \<noteq> None \<or> 2 \<le> count_list (map GetID (m # ms)) i"
    proof (cases "i = GetID m")
      case True
      have "count_list (map GetID ms) i \<noteq> 0" using i(2) by (simp add: count_list_0_iff)
      then show ?thesis using True by simp
    next
      case False
      then show ?thesis using i(3) by auto
    qed
    then show ?thesis using None i(1,2) by auto
  qed
qed

lemma check_dependencies_None:
  "(check_dependencies i deps available = None) = (\<forall>dep\<in>set deps. available dep)"
  by (induction deps) auto

lemma check_dependencies_Some:
  "check_dependencies i deps available = Some failure \<Longrightarrow>
   \<exists>dep\<in>set deps. \<not> available dep \<and>
     failure = Errorf (''manager '' @ i @ '' requires manager '' @ dep @ '' which was not provided'')"
  by (induction deps) (auto split: if_splits)

lemma check_managers_None:
  "(check_managers ms available = None) =
     (\<forall>m\<in>set ms. \<forall>dep\<in>set (GetDependencies m). available dep)"
proof (induction ms)
  case Nil
  then show ?case by simp
next
  case (Cons m ms)
  show ?case
  proof (cases "check_dependencies (GetID m) (GetDependencies m) available")
    case None
    then show ?thesis using Cons check_dependencies_None [of "GetID m" "GetDependencies m" available]
      by simp
  next
    case (Some f)
    then show ?thesis using check_dependencies_None [of "GetID m" "GetDependencies m" available]
      by simp
  qed
qed

lemma check_managers_Some:
  "check_managers ms available = Some failure \<Longrightarrow>
   \<exists>m\<in>set ms. \<exists>dep\<in>set (GetDependencies m). \<not> available dep \<and>
     failure = Errorf (''manager '' @ GetID m @ '' requires manager '' @ dep
        @ '' which was not provided'')"
proof (induction ms)
  case Nil
  then show ?case by simp
next
  case (Cons m ms)
  show ?case
  proof (cases "check_dependencies (GetID m) (GetDependencies m) available")
    case None
    then show ?thesis using Cons by auto
  next
    case (Some f)
    then have "f = failure" using Cons.prems by simp
    with check_dependencies_Some [OF Some] show ?thesis by auto
  qed
qed

lemmas engine_eval = Engine_Process_def Engine_PostProcess_def executeManagersInOrder_def
  managerMap_def executionOrder_def Upsert_def createFragmentCopy_def NewState_def
  WithManagers_def WithManagerOrder_def AddManager_def Let_def

text \<open>
  Claim C4, as stated, fails where both defects meet: of two managers that share the
  identifier \<open>''a''\<close>, the second depending on the unregistered \<open>''z''\<close>, \<^verbatim>\<open>WithManagers\<close>
  reports the duplicate and not the unsatisfied dependency.
\<close>

theorem registration_validates_counterexample:
  "''z'' \<in> set (GetDependencies (fixture_manager ''a'' [''z''] None None)) \<and>
   ''z'' \<notin> set (map GetID [fixture_manager ''a'' [] None None,
                            fixture_manager ''a'' [''z''] None None]) \<and>
   WithManagers [fixture_manager ''a'' [] None None, fixture_manager ''a'' [''z''] None None]
     (fixture_engine None [] []) = Inl (Errorf ''duplicate manager with ID a'')"
  by (simp add: engine_eval)

text \<open>
  Claim C4, amended. \<^verbatim>\<open>WithManagers\<close> fails with the duplicate-manager error, naming an
  identifier that occurs twice, whenever two managers share an identifier, wherever
  they stand in the sequence; when the identifiers are distinct and some manager
  declares a dependency that none of them has as identifier, it fails with the
  unsatisfied-dependency error for such a manager and dependency; otherwise it
  succeeds and stores the managers. \<^verbatim>\<open>AddManager\<close> checks the same two conditions
  against the managers already registered, the duplicate first, and appends the
  manager when both pass.
\<close>

theorem registration_validates:
  "(\<not> distinct (map GetID ms) \<longrightarrow>
      (\<exists>i. 2 \<le> count_list (map GetID ms) i \<and>
         WithManagers ms e = Inl (Errorf (''duplicate manager with ID '' @ i)))) \<and>
   (distinct (map GetID ms) \<and>
    (\<exists>m\<in>set ms. \<exists>dep\<in>set (GetDependencies m). dep \<notin> GetID ` set ms) \<longrightarrow>
      (\<exists>m\<in>set ms. \<exists>dep\<in>set (GetDependencies m). dep \<notin> GetID ` set ms \<and>
         WithManagers ms e = Inl (Errorf (''manager '' @ GetID m @ '' requires manager '' @ dep
            @ '' which was not provided'')))) \<and>
   (distinct (map GetID ms) \<and>
    (\<forall>m\<in>set ms. \<forall>dep\<in>set (GetDependencies m). dep \<in> GetID ` set ms) \<longrightarrow>
      WithManagers ms e = Inr (e\<lparr>managers := ms\<rparr>)) \<and>
   (GetID new \<in> GetID ` set (managers e) \<longrightarrow>
      AddManager new e = (Some (Errorf (''duplicate manager with ID '' @ GetID new)), e)) \<and>
   (GetID new \<notin> GetID ` set (managers e) \<and>
    (\<exists>dep\<in>set (GetDependencies new). dep \<notin> GetID ` set (managers e)) \<longrightarrow>
      (\<exists>dep\<in>set (GetDependencies new). dep \<notin> GetID ` set (managers e) \<and>
         AddManager new e = (Some (Errorf (''manager '' @ GetID new @ '' requires manager '' @ dep
            @ '' which was not provided'')), e))) \<and>
   (GetID new \<notin> GetID ` set (managers e) \<and>
    (\<forall>dep\<in>set (GetDependencies new). dep \<in> GetID ` set (managers e)) \<longrightarrow>
      AddManager new e = (None, e\<lparr>managers := managers e @ [new]\<rparr>))"
proof (intro conjI impI)
  assume "\<not> distinct (map GetID ms)"
  then have "\<not> (distinct (map GetID ms) \<and> (\<forall>m\<in>set ms. Map.empty (GetID m) = None))" by simp
  from collect_available_duplicate [OF this]
  show "\<exists>i. 2 \<le> count_list (map GetID ms) i \<and>
         WithManagers ms e = Inl (Errorf (''duplicate manager with ID '' @ i))"
    by (auto simp: WithManagers_def)
next
  assume a: "distinct (map GetID ms) \<and>
    (\<exists>m\<in>set ms. \<exists>dep\<in>set (GetDependencies m). dep \<notin> GetID ` set ms)"
  with collect_available_distinct [of ms Map.empty] obtain found where
    f: "collect_available ms Map.empty = Inr found" "dom found = GetID ` set ms"
    by auto
  have av: "(found dep \<noteq> None) = (dep \<in> GetID ` set ms)" for dep
    using f(2) by (auto simp: dom_def)
  have "check_managers ms (\<lambda>dep. found dep \<noteq> None) \<noteq> None"
    using a by (simp only: check_managers_None av) blast
  then obtain failure where s: "check_managers ms (\<lambda>dep. found dep \<noteq> None) = Some failure"
    by auto
  from check_managers_Some [OF s] obtain m dep where
    "m \<in> set ms" "dep \<in> set (GetDependencies m)" "dep \<notin> GetID ` set ms"
    "failure = Errorf (''manager '' @ GetID m @ '' requires manager '' @ dep
        @ '' which was not provided'')"
    by (auto simp only: av)
  then show "\<exists>m\<in>set ms. \<exists>dep\<in>set (GetDependencies m). dep \<notin> GetID ` set ms \<and>
         WithManagers ms e = Inl (Errorf (''manager '' @ GetID m @ '' requires manager '' @ dep
            @ '' which was not provided''))"
    using f(1) s by (auto simp: WithManagers_def)
next
  assume a: "distinct (map GetID ms) \<and>
    (\<forall>m\<in>set ms. \<forall>dep\<in>set (GetDependencies m). dep \<in> GetID ` set ms)"
  with collect_available_distinct [of ms Map.empty] obtain found where
    f: "collect_available ms Map.empty = Inr found" "dom found = GetID ` set ms"
    by auto
  have av: "(found dep \<noteq> None) = (dep \<in> GetID ` set ms)" for dep
    using f(2) by (auto simp: dom_def)
  have "check_managers ms (\<lambda>dep. found dep \<noteq> None) = None"
    using a by (simp only: check_managers_None av) blast
  then show "WithManagers ms e = Inr (e\<lparr>managers := ms\<rparr>)"
    using f(1) by (simp add: WithManagers_def)
next
  assume "GetID new \<in> GetID ` set (managers e)"
  then show "AddManager new e = (Some (Errorf (''duplicate manager with ID '' @ GetID new)), e)"
    by (auto simp: AddManager_def list_ex_iff)
next
  assume a: "GetID new \<notin> GetID ` set (managers e) \<and>
    (\<exists>dep\<in>set (GetDependencies new). dep \<notin> GetID ` set (managers e))"
  let ?av = "\<lambda>dep. dep \<in> set (map GetID (managers e))"
  have "check_dependencies (GetID new) (GetDependencies new) ?av \<noteq> None"
    using a by (simp only: check_dependencies_None) auto
  then obtain failure where
    s: "check_dependencies (GetID new) (GetDependencies new) ?av = Some failure" by auto
  from check_dependencies_Some [OF s] obtain dep where
    "dep \<in> set (GetDependencies new)" "dep \<notin> GetID ` set (managers e)"
    "failure = Errorf (''manager '' @ GetID new @ '' requires manager '' @ dep
        @ '' which was not provided'')"
    by auto
  moreover have "\<not> list_ex (\<lambda>m. GetID m = GetID new) (managers e)"
    using a by (auto simp: list_ex_iff image_iff)
  ultimately show "\<exists>dep\<in>set (GetDependencies new). dep \<notin> GetID ` set (managers e) \<and>
         AddManager new e = (Some (Errorf (''manager '' @ GetID new @ '' requires manager '' @ dep
            @ '' which was not provided'')), e)"
    using s by (auto simp: AddManager_def)
next
  assume a: "GetID new \<notin> GetID ` set (managers e) \<and>
    (\<forall>dep\<in>set (GetDependencies new). dep \<in> GetID ` set (managers e))"
  let ?av = "\<lambda>dep. dep \<in> set (map GetID (managers e))"
  have "check_dependencies (GetID new) (GetDependencies new) ?av = None"
    using a by (simp only: check_dependencies_None) auto
  moreover have "\<not> list_ex (\<lambda>m. GetID m = GetID new) (managers e)"
    using a by (auto simp: list_ex_iff image_iff)
  ultimately show "AddManager new e = (None, e\<lparr>managers := managers e @ [new]\<rparr>)"
    by (simp add: AddManager_def)
qed

text \<open>Claim C4, amended, at one concrete input for each of its six cases.\<close>

theorem registration_validates_witness:
  "\<not> distinct (map GetID [fixture_manager ''a'' [] None None, fixture_manager ''a'' [] None None]) \<and>
   WithManagers [fixture_manager ''a'' [] None None, fixture_manager ''a'' [] None None]
     (fixture_engine None [] []) = Inl (Errorf ''duplicate manager with ID a'') \<and>
   WithManagers [fixture_manager ''b'' [''z''] None None] (fixture_engine None [] []) =
     Inl (Errorf ''manager b requires manager z which was not provided'') \<and>
   WithManagers [fixture_manager ''b'' [''a''] None None, fixture_manager ''a'' [] None None]
     (fixture_engine None [] []) =
     Inr (fixture_engine None
       [fixture_manager ''b'' [''a''] None None, fixture_manager ''a'' [] None None] []) \<and>
   AddManager (fixture_manager ''a'' [] None None)
     (fixture_engine None [fixture_manager ''a'' [] None None] []) =
     (Some (Errorf ''duplicate manager with ID a''),
      fixture_engine None [fixture_manager ''a'' [] None None] []) \<and>
   AddManager (fixture_manager ''b'' [''z''] None None)
     (fixture_engine None [fixture_manager ''a'' [] None None] []) =
     (Some (Errorf ''manager b requires manager z which was not provided''),
      fixture_engine None [fixture_manager ''a'' [] None None] []) \<and>
   AddManager (fixture_manager ''b'' [''a''] None None)
     (fixture_engine None [fixture_manager ''a'' [] None None] []) =
     (None, fixture_engine None
        [fixture_manager ''a'' [] None None, fixture_manager ''b'' [''a''] None None] [])"
proof -
  let ?a = "fixture_manager ''a'' [] None None"
  let ?bz = "fixture_manager ''b'' [''z''] None None"
  let ?ba = "fixture_manager ''b'' [''a''] None None"
  let ?e0 = "fixture_engine None [] []"
  let ?e1 = "fixture_engine None [?a] []"
  have 1: "\<not> distinct (map GetID [?a, ?a])" by simp
  from registration_validates [where ms = "[?a, ?a]" and e = ?e0, THEN conjunct1] 1
  have 2: "WithManagers [?a, ?a] ?e0 = Inl (Errorf ''duplicate manager with ID a'')"
    by (auto split: if_splits)
  from registration_validates [where ms = "[?bz]" and e = ?e0, THEN conjunct2, THEN conjunct1]
  have 3: "WithManagers [?bz] ?e0 =
      Inl (Errorf ''manager b requires manager z which was not provided'')"
    by simp
  from registration_validates [where ms = "[?ba, ?a]" and e = ?e0,
      THEN conjunct2, THEN conjunct2, THEN conjunct1]
  have 4: "WithManagers [?ba, ?a] ?e0 = Inr (fixture_engine None [?ba, ?a] [])"
    by simp
  from registration_validates [where new = ?a and e = ?e1,
      THEN conjunct2, THEN conjunct2, THEN conjunct2, THEN conjunct1]
  have 5: "AddManager ?a ?e1 = (Some (Errorf ''duplicate manager with ID a''), ?e1)"
    by simp
  from registration_validates [where new = ?bz and e = ?e1,
      THEN conjunct2, THEN conjunct2, THEN conjunct2, THEN conjunct2, THEN conjunct1]
  have 6: "AddManager ?bz ?e1 =
      (Some (Errorf ''manager b requires manager z which was not provided''), ?e1)"
    by simp
  from registration_validates [where new = ?ba and e = ?e1,
      THEN conjunct2, THEN conjunct2, THEN conjunct2, THEN conjunct2, THEN conjunct2]
  have 7: "AddManager ?ba ?e1 = (None, fixture_engine None [?a, ?ba] [])"
    by simp
  from 1 2 3 4 5 6 7 show ?thesis by blast
qed


section \<open>The Process phase\<close>

lemma errgroup_Wait_None: "(errgroup_Wait rs = None) = (\<forall>r\<in>set rs. r = None)"
  by (induction rs rule: errgroup_Wait.induct) auto

lemma errgroup_Wait_Some: "errgroup_Wait rs = Some failure \<Longrightarrow> Some failure \<in> set rs"
  by (induction rs rule: errgroup_Wait.induct) auto

lemma run_goroutines_untouched:
  "\<forall>m\<in>set ms. \<forall>c s. fst (snd (Process m c s)) = c \<Longrightarrow>
   fst (snd (run_goroutines ms copy st)) = copy"
proof (induction ms arbitrary: copy st)
  case Nil
  then show ?case by simp
next
  case (Cons m ms)
  obtain r c1 s1 where p: "Process m copy st = (r, c1, s1)" by (cases "Process m copy st") auto
  have "fst (snd (Process m copy st)) = copy" using Cons.prems by simp
  then have c1: "c1 = copy" using p by simp
  have "fst (snd (run_goroutines ms c1 s1)) = c1" using Cons by simp
  then show ?case using p c1 by (auto split: prod.splits)
qed

text \<open>
  Claim C1, as stated, fails when the store refuses the write: the only manager's
  \<^verbatim>\<open>Process\<close> succeeds, \<^verbatim>\<open>Upsert\<close> returns "connection refused", and \<^verbatim>\<open>Engine.Process\<close>
  returns "failed to store input: connection refused" with nothing persisted.
\<close>

theorem Process_persists_only_on_success_counterexample:
  "fst (run_goroutines [fixture_manager ''a'' [] None None]
      (createFragmentCopy fixture_fragment None None)
      (NewState\<lparr>Input := Some (createFragmentCopy fixture_fragment None None)\<rparr>)) = [None] \<and>
   Engine_Process [fixture_manager ''a'' [] None None]
      (fixture_engine (Some (Errorf ''connection refused''))
         [fixture_manager ''a'' [] None None] [])
      (NewState\<lparr>Input := Some fixture_fragment\<rparr>) =
   Returns (Some (Wrap ''failed to store input: '' (Errorf ''connection refused'')),
      fixture_engine (Some (Errorf ''connection refused'')) [fixture_manager ''a'' [] None None] [],
      NewState\<lparr>Input := Some (createFragmentCopy fixture_fragment None None)\<rparr>)"
  by (simp add: Engine_Process_def NewState_def Upsert_def createFragmentCopy_def)

text \<open>
  Claim C1, amended. Let the actor and the session of the input fragment resolve, and
  let the managers run to their ends in any order. If some manager's \<^verbatim>\<open>Process\<close>
  returns an error, \<^verbatim>\<open>Engine.Process\<close> returns one of the managers' errors, wrapped, and
  leaves the fragment store as it was. If every \<^verbatim>\<open>Process\<close> succeeds, the enriched input
  fragment, as the managers' writes have left it, is handed to \<^verbatim>\<open>Upsert\<close> once: when the
  write succeeds that fragment is persisted once and no error is returned, and when it
  fails its error is returned, wrapped, and nothing is persisted. When no manager
  writes to the fragment, what is stored is the enriched copy as the engine made it.
\<close>

theorem Process_persists_only_on_success:
  "Input st = Some input \<and> actorStore e (ActorID input) = Inr actor \<and>
   sessionStore e (SessionID input) = Inr session \<and> mset schedule = mset (managers e) \<longrightarrow>
   (let inputCopy = createFragmentCopy input actor session;
        ran = run_goroutines schedule inputCopy (st\<lparr>Input := Some inputCopy\<rparr>);
        results = fst ran; stored = fst (snd ran); left = snd (snd ran)
    in ((\<exists>r\<in>set results. r \<noteq> None) \<longrightarrow>
          (\<exists>failure. Some failure \<in> set results \<and>
             Engine_Process schedule e st =
               Returns (Some (Wrap ''failed to execute manager analysis: '' failure), e, left))) \<and>
       ((\<forall>r\<in>set results. r = None) \<and>
        Upsert_result (interactionFragmentStore e) stored = None \<longrightarrow>
          Engine_Process schedule e st =
            Returns (None,
              e\<lparr>interactionFragmentStore := (interactionFragmentStore e)
                 \<lparr>upserted := upserted (interactionFragmentStore e) @ [stored]\<rparr>\<rparr>,
              left)) \<and>
       (\<forall>failure. (\<forall>r\<in>set results. r = None) \<and>
        Upsert_result (interactionFragmentStore e) stored = Some failure \<longrightarrow>
          Engine_Process schedule e st =
            Returns (Some (Wrap ''failed to store input: '' failure), e, left)) \<and>
       ((\<forall>m\<in>set schedule. \<forall>c s. fst (snd (Process m c s)) = c) \<longrightarrow> stored = inputCopy))"
proof
  assume a: "Input st = Some input \<and> actorStore e (ActorID input) = Inr actor \<and>
   sessionStore e (SessionID input) = Inr session \<and> mset schedule = mset (managers e)"
  define inputCopy where "inputCopy = createFragmentCopy input actor session"
  define ran where "ran = run_goroutines schedule inputCopy (st\<lparr>Input := Some inputCopy\<rparr>)"
  define results where "results = fst ran"
  define stored where "stored = fst (snd ran)"
  define left where "left = snd (snd ran)"
  have unfold: "Engine_Process schedule e st = Returns
      (case errgroup_Wait results of
         Some failure \<Rightarrow> (Some (Wrap ''failed to execute manager analysis: '' failure), e, left)
       | None \<Rightarrow>
          (case Upsert stored (interactionFragmentStore e) of
             (Some failure, store) \<Rightarrow>
               (Some (Wrap ''failed to store input: '' failure),
                e\<lparr>interactionFragmentStore := store\<rparr>, left)
           | (None, store) \<Rightarrow> (None, e\<lparr>interactionFragmentStore := store\<rparr>, left)))"
    unfolding results_def stored_def left_def ran_def inputCopy_def
    using a by (simp add: Engine_Process_def Let_def case_prod_beta)
  have 1: "\<exists>failure. Some failure \<in> set results \<and>
             Engine_Process schedule e st =
               Returns (Some (Wrap ''failed to execute manager analysis: '' failure), e, left)"
    if "\<exists>r\<in>set results. r \<noteq> None"
  proof -
    from that have "errgroup_Wait results \<noteq> None" by (simp only: errgroup_Wait_None) blast
    then obtain failure where f: "errgroup_Wait results = Some failure" by auto
    from errgroup_Wait_Some [OF f] f show ?thesis by (auto simp: unfold)
  qed
  have 2: "Engine_Process schedule e st =
            Returns (None,
              e\<lparr>interactionFragmentStore := (interactionFragmentStore e)
                 \<lparr>upserted := upserted (interactionFragmentStore e) @ [stored]\<rparr>\<rparr>,
              left)"
    if "(\<forall>r\<in>set results. r = None) \<and>
        Upsert_result (interactionFragmentStore e) stored = None"
  proof -
    from that have "errgroup_Wait results = None" by (simp only: errgroup_Wait_None) blast
    then show ?thesis using that by (simp add: unfold Upsert_def)
  qed
  have 3: "Engine_Process schedule e st =
            Returns (Some (Wrap ''failed to store input: '' failure), e, left)"
    if "(\<forall>r\<in>set results. r = None) \<and>
        Upsert_result (interactionFragmentStore e) stored = Some failure" for failure
  proof -
    from that have "errgroup_Wait results = None" by (simp only: errgroup_Wait_None) blast
    then show ?thesis using that by (simp add: unfold Upsert_def)
  qed
  have 4: "stored = inputCopy" if "\<forall>m\<in>set schedule. \<forall>c s. fst (snd (Process m c s)) = c"
    unfolding stored_def ran_def using that by (rule run_goroutines_untouched)
  from 1 2 3 4 show "let inputCopy = createFragmentCopy input actor session;
        ran = run_goroutines schedule inputCopy (st\<lparr>Input := Some inputCopy\<rparr>);
        results = fst ran; stored = fst (snd ran); left = snd (snd ran)
    in ((\<exists>r\<in>set results. r \<noteq> None) \<longrightarrow>
          (\<exists>failure. Some failure \<in> set results \<and>
             Engine_Process schedule e st =
               Returns (Some (Wrap ''failed to execute manager analysis: '' failure), e, left))) \<and>
       ((\<forall>r\<in>set results. r = None) \<and>
        Upsert_result (interactionFragmentStore e) stored = None \<longrightarrow>
          Engine_Process schedule e st =
            Returns (None,
              e\<lparr>interactionFragmentStore := (interactionFragmentStore e)
                 \<lparr>upserted := upserted (interactionFragmentStore e) @ [stored]\<rparr>\<rparr>,
              left)) \<and>
       (\<forall>failure. (\<forall>r\<in>set results. r = None) \<and>
        Upsert_result (interactionFragmentStore e) stored = Some failure \<longrightarrow>
          Engine_Process schedule e st =
            Returns (Some (Wrap ''failed to store input: '' failure), e, left)) \<and>
       ((\<forall>m\<in>set schedule. \<forall>c s. fst (snd (Process m c s)) = c) \<longrightarrow> stored = inputCopy)"
    unfolding Let_def inputCopy_def [symmetric] ran_def [symmetric] results_def [symmetric]
      stored_def [symmetric] left_def [symmetric]
    by blast
qed

text \<open>
  Claim C1, amended, on an engine with two managers of which \<open>''b''\<close> fails and
  finishes first, on an engine whose only manager succeeds, and on an engine whose
  only manager writes the content of the input through \<^verbatim>\<open>State.Input\<close>: the fragment
  stored carries what it wrote.
\<close>

theorem Process_persists_only_on_success_witness:
  "Input (NewState\<lparr>Input := Some fixture_fragment\<rparr> :: (nat, nat) State) = Some fixture_fragment \<and>
   mset [fixture_manager ''b'' [] (Some (Errorf ''boom'')) None, fixture_manager ''a'' [] None None] =
     mset (managers (fixture_engine None
       [fixture_manager ''a'' [] None None, fixture_manager ''b'' [] (Some (Errorf ''boom'')) None] [])) \<and>
   Engine_Process
     [fixture_manager ''b'' [] (Some (Errorf ''boom'')) None, fixture_manager ''a'' [] None None]
     (fixture_engine None
       [fixture_manager ''a'' [] None None, fixture_manager ''b'' [] (Some (Errorf ''boom'')) None] [])
     (NewState\<lparr>Input := Some fixture_fragment\<rparr>) =
   Returns (Some (Wrap ''failed to execute manager analysis: '' (Errorf ''boom'')),
     fixture_engine None
       [fixture_manager ''a'' [] None None, fixture_manager ''b'' [] (Some (Errorf ''boom'')) None] [],
     NewState\<lparr>Input := Some (createFragmentCopy fixture_fragment None None)\<rparr>) \<and>
   Engine_Process [fixture_manager ''a'' [] None None]
     (fixture_engine None [fixture_manager ''a'' [] None None] [])
     (NewState\<lparr>Input := Some fixture_fragment\<rparr>) =
   Returns (None,
     (fixture_engine None [fixture_manager ''a'' [] None None] [])
       \<lparr>interactionFragmentStore := \<lparr>Upsert_result = (\<lambda>f. None),
          upserted = [createFragmentCopy fixture_fragment None None]\<rparr>\<rparr>,
     NewState\<lparr>Input := Some (createFragmentCopy fixture_fragment None None)\<rparr>) \<and>
   Engine_Process
     [\<lparr>GetID = ''w'', GetDependencies = [],
       Process = (\<lambda>copy s. (None, copy\<lparr>Fragment.Content := ''seen''\<rparr>,
                    s\<lparr>Input := Some (copy\<lparr>Fragment.Content := ''seen''\<rparr>)\<rparr>)),
       PostProcess = (\<lambda>s. (None, s))\<rparr>]
     (fixture_engine None
       [\<lparr>GetID = ''w'', GetDependencies = [],
         Process = (\<lambda>copy s. (None, copy\<lparr>Fragment.Content := ''seen''\<rparr>,
                      s\<lparr>Input := Some (copy\<lparr>Fragment.Content := ''seen''\<rparr>)\<rparr>)),
         PostProcess = (\<lambda>s. (None, s))\<rparr>] [])
     (NewState\<lparr>Input := Some fixture_fragment\<rparr>) =
   Returns (None,
     (fixture_engine None
       [\<lparr>GetID = ''w'', GetDependencies = [],
         Process = (\<lambda>copy s. (None, copy\<lparr>Fragment.Content := ''seen''\<rparr>,
                      s\<lparr>Input := Some (copy\<lparr>Fragment.Content := ''seen''\<rparr>)\<rparr>)),
         PostProcess = (\<lambda>s. (None, s))\<rparr>] [])
       \<lparr>interactionFragmentStore := \<lparr>Upsert_result = (\<lambda>f. None),
          upserted = [(createFragmentCopy fixture_fragment None None)
                        \<lparr>Fragment.Content := ''seen''\<rparr>]\<rparr>\<rparr>,
     NewState\<lparr>Input := Some ((createFragmentCopy fixture_fragment None None)
                        \<lparr>Fragment.Content := ''seen''\<rparr>)\<rparr>)"
proof -
  let ?a = "fixture_manager ''a'' [] None None"
  let ?b = "fixture_manager ''b'' [] (Some (Errorf ''boom'')) None"
  let ?w = "\<lparr>GetID = ''w'', GetDependencies = [],
       Process = (\<lambda>copy s. (None, copy\<lparr>Fragment.Content := ''seen''\<rparr>,
                    s\<lparr>Input := Some (copy\<lparr>Fragment.Content := ''seen''\<rparr>)\<rparr>)),
       PostProcess = (\<lambda>s. (None, s))\<rparr> :: (nat, nat) Manager"
  let ?st = "NewState\<lparr>Input := Some fixture_fragment\<rparr> :: (nat, nat) State"
  have h: "Input ?st = Some fixture_fragment" by simp
  have p: "mset [?b, ?a] = mset (managers (fixture_engine None [?a, ?b] []))" by simp
  have 1: "Engine_Process [?b, ?a] (fixture_engine None [?a, ?b] []) ?st =
      Returns (Some (Wrap ''failed to execute manager analysis: '' (Errorf ''boom'')),
        fixture_engine None [?a, ?b] [],
        NewState\<lparr>Input := Some (createFragmentCopy fixture_fragment None None)\<rparr>)"
    using Process_persists_only_on_success [where st = ?st and input = fixture_fragment
        and e = "fixture_engine None [?a, ?b] []" and actor = None and session = None
        and schedule = "[?b, ?a]"] h p
    by (simp add: Let_def NewState_def)
  have 2: "Engine_Process [?a] (fixture_engine None [?a] []) ?st =
      Returns (None,
        (fixture_engine None [?a] [])
          \<lparr>interactionFragmentStore := \<lparr>Upsert_result = (\<lambda>f. None),
             upserted = [createFragmentCopy fixture_fragment None None]\<rparr>\<rparr>,
        NewState\<lparr>Input := Some (createFragmentCopy fixture_fragment None None)\<rparr>)"
    using Process_persists_only_on_success [where st = ?st and input = fixture_fragment
        and e = "fixture_engine None [?a] []" and actor = None and session = None
        and schedule = "[?a]"] h
    by (simp add: Let_def NewState_def)
  have 3: "Engine_Process [?w] (fixture_engine None [?w] []) ?st =
      Returns (None,
        (fixture_engine None [?w] [])
          \<lparr>interactionFragmentStore := \<lparr>Upsert_result = (\<lambda>f. None),
             upserted = [(createFragmentCopy fixture_fragment None None)
                        \<lparr>Fragment.Content := ''seen''\<rparr>]\<rparr>\<rparr>,
        NewState\<lparr>Input := Some ((createFragmentCopy fixture_fragment None None)
                        \<lparr>Fragment.Content := ''seen''\<rparr>)\<rparr>)"
    using Process_persists_only_on_success [where st = ?st and input = fixture_fragment
        and e = "fixture_engine None [?w] []" and actor = None and session = None
        and schedule = "[?w]"] h
    by (simp add: Let_def NewState_def)
  from h p 1 2 3 show ?thesis by blast
qed


section \<open>The PostProcess phase\<close>




lemma execute_each_calls:
  assumes "execute_each mp f order st = (r, st', calls)"
  shows "prefix (map fst calls) (filter (\<lambda>i. mp i \<noteq> None) order) \<and>
         (\<forall>c\<in>set (butlast calls). snd c = None) \<and>
         ((r = None) = (\<forall>c\<in>set calls. snd c = None)) \<and>
         (r = None \<longrightarrow> map fst calls = filter (\<lambda>i. mp i \<noteq> None) order) \<and>
         (\<forall>failure. r = Some failure \<longrightarrow>
            (\<exists>i cause. calls \<noteq> [] \<and> last calls = (i, Some cause) \<and>
               failure = Wrap (''manager '' @ i @ '' failed: '') cause))"
  using assms
proof (induction order arbitrary: st r st' calls)
  case Nil
  then show ?case by simp
next
  case (Cons i order)
  show ?case
  proof (cases "mp i")
    case None
    then show ?thesis using Cons.IH [of st r st' calls] Cons.prems by simp
  next
    case (Some m)
    obtain x st1 where f: "f m st = (x, st1)" by (cases "f m st") auto
    show ?thesis
    proof (cases x)
      case (Some cause)
      then show ?thesis using Cons.prems \<open>mp i = Some m\<close> f by auto
    next
      case None
      obtain r2 st2 calls2 where rest: "execute_each mp f order st1 = (r2, st2, calls2)"
        by (cases "execute_each mp f order st1") auto
      have eq: "r = r2" "st' = st2" "calls = (i, None) # calls2"
        using Cons.prems \<open>mp i = Some m\<close> f None rest by simp_all
      from Cons.IH [OF rest] show ?thesis
        using \<open>mp i = Some m\<close> by (auto simp: eq)
    qed
  qed
qed




lemma check_order_None: "(check_order order registered = None) = (\<forall>i\<in>set order. registered i)"
  by (induction order) auto

lemma check_order_Some:
  "check_order order registered = Some failure \<Longrightarrow>
   \<exists>i\<in>set order. \<not> registered i \<and>
     failure = Errorf (''manager '' @ i @ '' specified in order but not provided'')"
  by (induction order) (auto split: if_splits)

lemma execute_each_cong:
  "\<forall>i\<in>set order. mp i = mp' i \<Longrightarrow>
   execute_each mp f order st = execute_each mp' f order st"
  by (induction order arbitrary: st) (auto split: option.splits prod.splits)

lemma foldl_managers_filter:
  "i \<noteq> k \<Longrightarrow> acc i = acc' i \<Longrightarrow>
   foldl (\<lambda>mp m. mp(GetID m \<mapsto> m)) acc (filter (\<lambda>x. GetID x \<noteq> k) ms) i =
   foldl (\<lambda>mp m. mp(GetID m \<mapsto> m)) acc' ms i"
proof (induction ms arbitrary: acc acc')
  case Nil
  then show ?case by simp
next
  case (Cons a ms)
  show ?case
  proof (cases "GetID a = k")
    case True
    have "acc i = (acc'(GetID a \<mapsto> a)) i" using Cons.prems True by simp
    from Cons.IH [of acc "acc'(GetID a \<mapsto> a)", OF Cons.prems(1) this]
    show ?thesis using True by simp
  next
    case False
    have "(acc(GetID a \<mapsto> a)) i = (acc'(GetID a \<mapsto> a)) i" using Cons.prems by simp
    from Cons.IH [of "acc(GetID a \<mapsto> a)" "acc'(GetID a \<mapsto> a)", OF Cons.prems(1) this]
    show ?thesis using False by simp
  qed
qed

lemma managerMap_filter:
  "i \<noteq> k \<Longrightarrow> managerMap (filter (\<lambda>x. GetID x \<noteq> k) ms) i = managerMap ms i"
  by (simp add: managerMap_def foldl_managers_filter)

lemma execute_each_ids:
  assumes "execute_each mp f order st = (r, st', calls)"
  shows "fst ` set calls \<subseteq> set order"
proof -
  from execute_each_calls [OF assms]
  have "prefix (map fst calls) (filter (\<lambda>i. mp i \<noteq> None) order)" by blast
  then have "set (map fst calls) \<subseteq> set (filter (\<lambda>i. mp i \<noteq> None) order)"
    by (rule set_mono_prefix)
  then show ?thesis by auto
qed

text \<open>
  Claim C9, as stated, fails for the empty order. \<^verbatim>\<open>WithManagerOrder\<close> accepts it, it
  omits the identifiers \<open>''a''\<close> and \<open>''b''\<close> of both registered managers, and
  \<^verbatim>\<open>executeManagersInOrder\<close> takes an empty order for none: \<^verbatim>\<open>Engine.PostProcess\<close> calls
  the \<^verbatim>\<open>PostProcess\<close> of both, in registration order.
\<close>

theorem omitted_manager_never_runs_counterexample:
  "WithManagerOrder []
     (fixture_engine None
        [fixture_manager ''a'' [] None None, fixture_manager ''b'' [] None None] [''b'']) =
     Inr (fixture_engine None
        [fixture_manager ''a'' [] None None, fixture_manager ''b'' [] None None] []) \<and>
   ''a'' \<notin> set ([] :: ManagerID list) \<and>
   Engine_PostProcess
     (fixture_engine None
        [fixture_manager ''a'' [] None None, fixture_manager ''b'' [] None None] [])
     (Some fixture_fragment) NewState =
     Returns (None,
       (fixture_engine None
          [fixture_manager ''a'' [] None None, fixture_manager ''b'' [] None None] [])
         \<lparr>interactionFragmentStore := \<lparr>Upsert_result = (\<lambda>f. None),
            upserted = [fixture_fragment]\<rparr>\<rparr>,
       NewState\<lparr>Output := Some (createFragmentCopy fixture_fragment None None)\<rparr>,
       [(''a'', None), (''b'', None)])"
  by (simp add: engine_eval)

text \<open>
  Claim C9, amended. \<^verbatim>\<open>WithManagerOrder\<close> accepts an order exactly when every identifier
  in it is registered, and rejects it naming an unregistered one otherwise: it does
  not ask that every registered manager is listed. With a non-empty order configured,
  a registered manager whose identifier the order omits is never called by
  \<^verbatim>\<open>Engine.PostProcess\<close>, and the call returns what it returns for the engine without
  that manager: the same error or none, the same \<^verbatim>\<open>State\<close>, the same calls, the same
  store.
\<close>

theorem omitted_manager_never_runs:
  "(set order \<subseteq> GetID ` set (managers e) \<longrightarrow>
      WithManagerOrder order e = Inr (e\<lparr>managerOrder := order\<rparr>)) \<and>
   (\<not> set order \<subseteq> GetID ` set (managers e) \<longrightarrow>
      (\<exists>i\<in>set order. i \<notin> GetID ` set (managers e) \<and>
         WithManagerOrder order e =
           Inl (Errorf (''manager '' @ i @ '' specified in order but not provided'')))) \<and>
   (managerOrder e \<noteq> [] \<and> m \<in> set (managers e) \<and> GetID m \<notin> set (managerOrder e) \<longrightarrow>
      (\<exists>r e' st' calls.
         Engine_PostProcess e (Some resp) st = Returns (r, e', st', calls) \<and>
         GetID m \<notin> fst ` set calls \<and>
         Engine_PostProcess (e\<lparr>managers := filter (\<lambda>x. GetID x \<noteq> GetID m) (managers e)\<rparr>)
             (Some resp) st =
           Returns (r, e'\<lparr>managers := filter (\<lambda>x. GetID x \<noteq> GetID m) (managers e)\<rparr>,
             st', calls)))"
proof (intro conjI impI)
  assume "set order \<subseteq> GetID ` set (managers e)"
  then have "check_order order (\<lambda>i. i \<in> set (map GetID (managers e))) = None"
    by (simp only: check_order_None) auto
  then show "WithManagerOrder order e = Inr (e\<lparr>managerOrder := order\<rparr>)"
    by (simp add: WithManagerOrder_def)
next
  assume "\<not> set order \<subseteq> GetID ` set (managers e)"
  then have "check_order order (\<lambda>i. i \<in> set (map GetID (managers e))) \<noteq> None"
    by (simp only: check_order_None) auto
  then obtain failure where
    s: "check_order order (\<lambda>i. i \<in> set (map GetID (managers e))) = Some failure" by auto
  from check_order_Some [OF s] show "\<exists>i\<in>set order. i \<notin> GetID ` set (managers e) \<and>
         WithManagerOrder order e =
           Inl (Errorf (''manager '' @ i @ '' specified in order but not provided''))"
    using s by (auto simp: WithManagerOrder_def)
next
  assume a: "managerOrder e \<noteq> [] \<and> m \<in> set (managers e) \<and> GetID m \<notin> set (managerOrder e)"
  let ?ms = "filter (\<lambda>x. GetID x \<noteq> GetID m) (managers e)"
  let ?e = "e\<lparr>managers := ?ms\<rparr>"
  have ord: "executionOrder ?e = managerOrder e" "executionOrder e = managerOrder e"
    using a by (simp_all add: executionOrder_def)
  have same: "executeManagersInOrder ?e PostProcess s = executeManagersInOrder e PostProcess s" for s
  proof -
    have "\<forall>i\<in>set (managerOrder e). managerMap ?ms i = managerMap (managers e) i"
      using a by (auto intro: managerMap_filter)
    then show ?thesis
      by (simp only: executeManagersInOrder_def ord) (simp add: execute_each_cong)
  qed
  have ids: "fst ` set calls \<subseteq> set (managerOrder e)"
    if "executeManagersInOrder e PostProcess s = (r, st', calls)" for s r st' calls
    using that execute_each_ids [of "managerMap (managers e)" PostProcess "managerOrder e" s r st' calls]
    by (simp add: executeManagersInOrder_def ord)
  obtain r e' st' calls where
    res: "Engine_PostProcess e (Some resp) st = Returns (r, e', st', calls)"
    by (cases "Engine_PostProcess e (Some resp) st") (auto simp: Engine_PostProcess_def)
  have "fst ` set calls \<subseteq> set (managerOrder e)"
    using res ids
    by (auto simp: Engine_PostProcess_def Let_def split: sum.splits prod.splits option.splits)
  then have no: "GetID m \<notin> fst ` set calls" using a by auto
  have "Engine_PostProcess ?e (Some resp) st = Returns (r, e'\<lparr>managers := ?ms\<rparr>, st', calls)"
    using res
    by (auto simp: Engine_PostProcess_def Let_def same split: sum.splits prod.splits option.splits)
  with res no show "\<exists>r e' st' calls.
         Engine_PostProcess e (Some resp) st = Returns (r, e', st', calls) \<and>
         GetID m \<notin> fst ` set calls \<and>
         Engine_PostProcess ?e (Some resp) st = Returns (r, e'\<lparr>managers := ?ms\<rparr>, st', calls)"
    by blast
qed

text \<open>
  Claim C9, amended, on managers \<open>''a''\<close> and \<open>''b''\<close> with the order \<open>''b''\<close> alone: the order is
  accepted, \<open>''a''\<close>, whose \<^verbatim>\<open>PostProcess\<close> would fail, is not called, and no error is
  returned.
\<close>

theorem omitted_manager_never_runs_witness:
  "set [''b''] \<subseteq> GetID ` set (managers (fixture_engine None
      [fixture_manager ''a'' [] None (Some (Errorf ''boom'')), fixture_manager ''b'' [] None None] [])) \<and>
   WithManagerOrder [''b''] (fixture_engine None
      [fixture_manager ''a'' [] None (Some (Errorf ''boom'')), fixture_manager ''b'' [] None None] []) =
     Inr (fixture_engine None
      [fixture_manager ''a'' [] None (Some (Errorf ''boom'')), fixture_manager ''b'' [] None None]
      [''b'']) \<and>
   WithManagerOrder [''b'', ''z''] (fixture_engine None
      [fixture_manager ''a'' [] None (Some (Errorf ''boom'')), fixture_manager ''b'' [] None None] []) =
     Inl (Errorf ''manager z specified in order but not provided'') \<and>
   Engine_PostProcess (fixture_engine None
      [fixture_manager ''a'' [] None (Some (Errorf ''boom'')), fixture_manager ''b'' [] None None]
      [''b'']) (Some fixture_fragment) NewState =
     Returns (None,
       (fixture_engine None
         [fixture_manager ''a'' [] None (Some (Errorf ''boom'')), fixture_manager ''b'' [] None None]
         [''b''])
         \<lparr>interactionFragmentStore := \<lparr>Upsert_result = (\<lambda>f. None),
            upserted = [fixture_fragment]\<rparr>\<rparr>,
       NewState\<lparr>Output := Some (createFragmentCopy fixture_fragment None None)\<rparr>,
       [(''b'', None)])"
proof -
  let ?a = "fixture_manager ''a'' [] None (Some (Errorf ''boom''))"
  let ?b = "fixture_manager ''b'' [] None None"
  have h1: "set [''b''] \<subseteq> GetID ` set (managers (fixture_engine None [?a, ?b] []))" by simp
  from omitted_manager_never_runs [where order = "[''b'']"
      and e = "fixture_engine None [?a, ?b] []", THEN conjunct1] h1
  have 1: "WithManagerOrder [''b''] (fixture_engine None [?a, ?b] []) =
      Inr (fixture_engine None [?a, ?b] [''b''])" by simp
  from omitted_manager_never_runs [where order = "[''b'', ''z'']"
      and e = "fixture_engine None [?a, ?b] []", THEN conjunct2, THEN conjunct1]
  have 2: "WithManagerOrder [''b'', ''z''] (fixture_engine None [?a, ?b] []) =
      Inl (Errorf ''manager z specified in order but not provided'')" by auto
  have 3: "Engine_PostProcess (fixture_engine None [?a, ?b] [''b'']) (Some fixture_fragment)
      NewState =
     Returns (None,
       (fixture_engine None [?a, ?b] [''b''])
         \<lparr>interactionFragmentStore := \<lparr>Upsert_result = (\<lambda>f. None),
            upserted = [fixture_fragment]\<rparr>\<rparr>,
       NewState\<lparr>Output := Some (createFragmentCopy fixture_fragment None None)\<rparr>,
       [(''b'', None)])"
    using omitted_manager_never_runs [where e = "fixture_engine None [?a, ?b] [''b'']"
      and m = ?a and resp = fixture_fragment and st = "NewState :: (nat, nat) State",
      THEN conjunct2, THEN conjunct2]
    by (simp add: engine_eval)
  from h1 1 2 3 show ?thesis by blast
qed

end
